theory Spec2Isabelle
  imports Main
begin

section \<open>Numbers\<close>

text \<open>
  The source computes with the TypeScript type \<^verbatim>\<open>number\<close>. Scroll offsets and
  window sizes are pixel counts, so a finite value is modelled as an integer. The one
  further value kept is \<open>NaN\<close>: it is a member of \<^verbatim>\<open>number\<close>, every comparison
  with it is false, and it is therefore the value on which the \<^verbatim>\<open>default\<close> branch of
  \<^verbatim>\<open>isScrollingLeft\<close> and \<^verbatim>\<open>isScrollingUp\<close> is taken. (A property that
  is \<^verbatim>\<open>undefined\<close> behaves like \<open>NaN\<close> in all operations used here.)
\<close>

datatype number = NaN | Num int

text \<open>The operators \<^verbatim>\<open><\<close>, \<^verbatim>\<open>>\<close>, \<^verbatim>\<open>===\<close> and \<^verbatim>\<open>-\<close> on numbers.\<close>

fun num_lt :: "number \<Rightarrow> number \<Rightarrow> bool" where
  "num_lt (Num a) (Num b) = (a < b)"
| "num_lt _ _ = False"

fun num_gt :: "number \<Rightarrow> number \<Rightarrow> bool" where
  "num_gt (Num a) (Num b) = (a > b)"
| "num_gt _ _ = False"

fun num_eq :: "number \<Rightarrow> number \<Rightarrow> bool" where
  "num_eq (Num a) (Num b) = (a = b)"
| "num_eq _ _ = False"

fun num_sub :: "number \<Rightarrow> number \<Rightarrow> number" where
  "num_sub (Num a) (Num b) = Num (a - b)"
| "num_sub _ _ = NaN"

text \<open>\<^verbatim>\<open>Math.max(a, b, c)\<close>: \<open>NaN\<close> as soon as one argument is.\<close>

fun Math_max :: "number \<Rightarrow> number \<Rightarrow> number \<Rightarrow> number" where
  "Math_max (Num a) (Num b) (Num c) = Num (max a (max b c))"
| "Math_max _ _ _ = NaN"

fun numeric :: "number \<Rightarrow> bool" where
  "numeric (Num _) = True"
| "numeric NaN = False"

section \<open>Data model\<close>

text \<open>
  \<^verbatim>\<open>IScroll\<close> and \<^verbatim>\<open>IDimensions\<close>. A field \<^verbatim>\<open>f\<close> of the source is the field
  \<open>s_f\<close> (scroll) or \<open>d_f\<close> (dimensions) here, since the source uses the same names
  for functions, parameters and fields of other objects.
\<close>

record IScroll =
  s_x :: number
  s_y :: number
  s_isScrollingUp :: bool
  s_isScrollingDown :: bool
  s_isScrollingLeft :: bool
  s_isScrollingRight :: bool
  s_xTurn :: number
  s_yTurn :: number
  s_xDTurn :: number
  s_yDTurn :: number

record IDimensions =
  d_width :: number
  d_height :: number
  d_clientWidth :: number
  d_clientHeight :: number
  d_outerWidth :: number
  d_outerHeight :: number
  d_documentWidth :: number
  d_documentHeight :: number

datatype error = Error string | ReferenceError string | TypeError string

subsection \<open>The host environment\<close>

text \<open>
  What the source reads from the globals \<^verbatim>\<open>window\<close> and \<^verbatim>\<open>document\<close>.
  \<open>scrollX\<close> and \<open>scrollY\<close> may be \<^verbatim>\<open>undefined\<close> (\<open>None\<close>): the source tests for it.
\<close>

record window =
  scrollX :: "number option"
  scrollY :: "number option"
  pageXOffset :: number
  pageYOffset :: number
  innerWidth :: number
  innerHeight :: number
  outerWidth :: number
  outerHeight :: number

record element =
  clientWidth :: number
  clientHeight :: number
  scrollHeight :: number
  scrollWidth :: number
  offsetHeight :: number
  offsetWidth :: number

text \<open>
  The global \<^verbatim>\<open>document\<close>: not declared at all (reading it raises a
  \<^verbatim>\<open>ReferenceError\<close>), declared with a falsy value, or a document whose
  \<^verbatim>\<open>documentElement\<close> may be missing.
\<close>

datatype document = NoDocumentGlobal | FalsyDocument | Document "element option"

text \<open>\<open>env_window = None\<close>: \<^verbatim>\<open>typeof window === 'undefined'\<close>.\<close>

record env =
  env_window :: "window option"
  env_document :: document

section \<open>Sampling\<close>

definition getNodeScroll :: "window \<Rightarrow> number \<times> number" where
  "getNodeScroll elem =
     (let scrollX' = (case scrollX elem of None \<Rightarrow> pageXOffset elem | Some v \<Rightarrow> v);
          scrollY' = (case scrollY elem of None \<Rightarrow> pageYOffset elem | Some v \<Rightarrow> v)
      in (scrollX', scrollY'))"

definition createEmptyDimensionState :: IDimensions where
  "createEmptyDimensionState =
     \<lparr> d_width = Num 0, d_height = Num 0, d_clientWidth = Num 0, d_clientHeight = Num 0,
       d_outerWidth = Num 0, d_outerHeight = Num 0,
       d_documentWidth = Num 0, d_documentHeight = Num 0 \<rparr>"

definition getClientDimensions :: "env \<Rightarrow> error + IDimensions" where
  "getClientDimensions e =
     (case env_document e of
        NoDocumentGlobal \<Rightarrow> Inl (ReferenceError ''document is not defined'')
      | FalsyDocument \<Rightarrow> Inr createEmptyDimensionState
      | Document None \<Rightarrow> Inr createEmptyDimensionState
      | Document (Some el) \<Rightarrow>
          (case env_window e of
             None \<Rightarrow> Inl (TypeError ''window is undefined'')
           | Some w \<Rightarrow>
               Inr \<lparr> d_width = innerWidth w, d_height = innerHeight w,
                     d_clientWidth = clientWidth el, d_clientHeight = clientHeight el,
                     d_outerWidth = outerWidth w, d_outerHeight = outerHeight w,
                     d_documentWidth =
                       Math_max (scrollWidth el) (offsetWidth el) (clientWidth el),
                     d_documentHeight =
                       Math_max (scrollHeight el) (offsetHeight el) (clientHeight el) \<rparr>))"

definition isScrollingLeft :: "number \<Rightarrow> IScroll \<Rightarrow> error + bool" where
  "isScrollingLeft x prev =
     (if num_lt x (s_x prev) then Inr True
      else if num_gt x (s_x prev) then Inr False
      else if num_eq x (s_x prev) then Inr (s_isScrollingLeft prev)
      else Inl (Error ''Could not calculate isScrollingLeft''))"

definition isScrollingUp :: "number \<Rightarrow> IScroll \<Rightarrow> error + bool" where
  "isScrollingUp y prev =
     (if num_lt y (s_y prev) then Inr True
      else if num_gt y (s_y prev) then Inr False
      else if num_eq y (s_y prev) then Inr (s_isScrollingUp prev)
      else Inl (Error ''Could not calculate yDir''))"

definition createInitScrollState :: IScroll where
  "createInitScrollState =
     \<lparr> s_x = Num 0, s_y = Num 0,
       s_isScrollingUp = False, s_isScrollingDown = False,
       s_isScrollingLeft = False, s_isScrollingRight = False,
       s_xTurn = Num 0, s_yTurn = Num 0, s_xDTurn = Num 0, s_yDTurn = Num 0 \<rparr>"

definition createInitDimensionsState :: "env \<Rightarrow> error + IDimensions" where
  "createInitDimensionsState e =
     (if env_window e = None then Inr createEmptyDimensionState
      else getClientDimensions e)"

section \<open>The collector\<close>

text \<open>
  An object handed to consumers is a pair of its reference and its fields; references
  are drawn from a counter, so two objects are the same object exactly when their
  references agree.
\<close>

type_synonym 'a obj = "nat \<times> 'a"

text \<open>
  Modelled from the spec: \<^verbatim>\<open>memoize\<close> (memoize-one) is not among the sources. Following
  section 9 of the spec it is a cache of the last argument and the last result, and the
  wrapped function runs again only when the comparator rejects the new argument against
  the cached one. The wrapped function of both uses is the copy \<^verbatim>\<open>{ ...arg }\<close>:
  a new object with the fields of the argument. The cached argument is kept by its fields:
  the only objects passed in are the last-synced copies, which are replaced but never
  written to.
\<close>

type_synonym 'a memo = "('a \<times> 'a obj) option"

definition memoize_call ::
  "('a \<Rightarrow> 'a \<Rightarrow> bool) \<Rightarrow> 'a \<Rightarrow> 'a memo \<times> nat \<Rightarrow> 'a obj \<times> 'a memo \<times> nat" where
  "memoize_call isEqual newArg mn =
     (let fresh = ((snd mn, newArg), Some (newArg, (snd mn, newArg)), Suc (snd mn))
      in case fst mn of
           None \<Rightarrow> fresh
         | Some (lastArg, lastResult) \<Rightarrow>
             if isEqual newArg lastArg then (lastResult, fst mn, snd mn) else fresh)"

text \<open>
  Modelled from the spec: \<^verbatim>\<open>shallowEqualScroll\<close> and \<^verbatim>\<open>shallowEqualDimensions\<close>
  live in \<^verbatim>\<open>./utils\<close>, which is not among the sources. The spec calls them field-wise
  shallow equality: every field of one side is compared with \<^verbatim>\<open>===\<close> to the same
  field of the other.
\<close>

definition shallowEqualScroll :: "IScroll \<Rightarrow> IScroll \<Rightarrow> bool" where
  "shallowEqualScroll a b =
     (num_eq (s_x a) (s_x b) \<and> num_eq (s_y a) (s_y b) \<and>
      num_eq (s_xTurn a) (s_xTurn b) \<and> num_eq (s_yTurn a) (s_yTurn b) \<and>
      num_eq (s_xDTurn a) (s_xDTurn b) \<and> num_eq (s_yDTurn a) (s_yDTurn b) \<and>
      s_isScrollingUp a = s_isScrollingUp b \<and> s_isScrollingDown a = s_isScrollingDown b \<and>
      s_isScrollingLeft a = s_isScrollingLeft b \<and>
      s_isScrollingRight a = s_isScrollingRight b)"

definition shallowEqualDimensions :: "IDimensions \<Rightarrow> IDimensions \<Rightarrow> bool" where
  "shallowEqualDimensions a b =
     (num_eq (d_width a) (d_width b) \<and> num_eq (d_height a) (d_height b) \<and>
      num_eq (d_clientWidth a) (d_clientWidth b) \<and>
      num_eq (d_clientHeight a) (d_clientHeight b) \<and>
      num_eq (d_outerWidth a) (d_outerWidth b) \<and>
      num_eq (d_outerHeight a) (d_outerHeight b) \<and>
      num_eq (d_documentWidth a) (d_documentWidth b) \<and>
      num_eq (d_documentHeight a) (d_documentHeight b))"

record IViewport =
  vp_scroll :: "IScroll obj"
  vp_dimensions :: "IDimensions obj"

record update_flags =
  u_scrollDidUpdate :: bool
  u_dimensionsDidUpdate :: bool

text \<open>
  The fields of the class, the caches of its two memoized functions, the number of
  public copies made so far (the next fresh reference), and the calls made so far to
  \<^verbatim>\<open>props.onUpdate\<close> and to \<^verbatim>\<open>updateOnIdle\<close>, oldest first. The consumer's
  callbacks are taken to return normally.
\<close>

record collector =
  scrollState :: IScroll
  dimensionsState :: IDimensions
  lastSyncedScrollState :: IScroll
  lastSyncedDimensionsState :: IDimensions
  componentMightHaveUpdated :: bool
  publicScrollMemo :: "IScroll memo"
  publicDimensionsMemo :: "IDimensions memo"
  allocated :: nat
  onUpdate_calls :: "(IViewport \<times> update_flags) list"
  updateOnIdle_calls :: "(IViewport \<times> update_flags) list"

definition constructor :: "env \<Rightarrow> error + collector" where
  "constructor e =
     (case createInitDimensionsState e of
        Inl err \<Rightarrow> Inl err
      | Inr d \<Rightarrow>
          Inr \<lparr> scrollState = createInitScrollState, dimensionsState = d,
                lastSyncedScrollState = createInitScrollState,
                lastSyncedDimensionsState = d,
                componentMightHaveUpdated = False,
                publicScrollMemo = None, publicDimensionsMemo = None,
                allocated = 0, onUpdate_calls = [], updateOnIdle_calls = [] \<rparr>)"

text \<open>
  \<^verbatim>\<open>handleScroll\<close> returns the error it raised, if any, and the collector as the call
  left it: the fields written before a \<^verbatim>\<open>throw\<close> stay written.
\<close>

definition handleScroll :: "window \<Rightarrow> collector \<Rightarrow> error option \<times> collector" where
  "handleScroll w c =
     (let x = fst (getNodeScroll w);
          y = snd (getNodeScroll w);
          prevIsScrollingLeft = s_isScrollingLeft (scrollState c);
          prevIsScrollingUp = s_isScrollingUp (scrollState c);
          prevXTurn = s_xTurn (scrollState c);
          prevYTurn = s_yTurn (scrollState c)
      in case isScrollingLeft x (scrollState c) of
           Inl err \<Rightarrow> (Some err, c)
         | Inr l \<Rightarrow>
             let s1 = (scrollState c)\<lparr>s_isScrollingLeft := l\<rparr>;
                 s2 = s1\<lparr>s_isScrollingRight := \<not> s_isScrollingLeft s1\<rparr>
             in case isScrollingUp y s2 of
                  Inl err \<Rightarrow> (Some err, c\<lparr>scrollState := s2\<rparr>)
                | Inr u \<Rightarrow>
                    let s3 = s2\<lparr>s_isScrollingUp := u\<rparr>;
                        s4 = s3\<lparr>s_isScrollingDown := \<not> s_isScrollingUp s3\<rparr>;
                        s5 = s4\<lparr>s_xTurn :=
                               (if s_isScrollingLeft s4 = prevIsScrollingLeft
                                then prevXTurn else x)\<rparr>;
                        s6 = s5\<lparr>s_yTurn :=
                               (if s_isScrollingUp s5 = prevIsScrollingUp
                                then prevYTurn else y)\<rparr>;
                        s7 = s6\<lparr>s_xDTurn := num_sub x (s_xTurn s6)\<rparr>;
                        s8 = s7\<lparr>s_yDTurn := num_sub y (s_yTurn s7)\<rparr>;
                        s9 = s8\<lparr>s_x := x\<rparr>;
                        s10 = s9\<lparr>s_y := y\<rparr>
                    in (None, c\<lparr>scrollState := s10, componentMightHaveUpdated := True\<rparr>))"

text \<open>
  The function that \<^verbatim>\<open>handleResize\<close> debounces (\<^verbatim>\<open>simpleDebounce\<close> is a timer of
  \<^verbatim>\<open>./utils\<close>; one run of the wrapped function is one call here).
\<close>

definition handleResize :: "env \<Rightarrow> collector \<Rightarrow> error option \<times> collector" where
  "handleResize e c =
     (case getClientDimensions e of
        Inl err \<Rightarrow> (Some err, c)
      | Inr d \<Rightarrow> (None, c\<lparr>dimensionsState := d, componentMightHaveUpdated := True\<rparr>))"

definition getPublicScroll :: "IScroll \<Rightarrow> collector \<Rightarrow> IScroll obj \<times> collector" where
  "getPublicScroll scroll c =
     (let r = memoize_call shallowEqualScroll scroll (publicScrollMemo c, allocated c)
      in (fst r, c\<lparr>publicScrollMemo := fst (snd r), allocated := snd (snd r)\<rparr>))"

definition getPublicDimensions ::
  "IDimensions \<Rightarrow> collector \<Rightarrow> IDimensions obj \<times> collector" where
  "getPublicDimensions dimensions c =
     (let r = memoize_call shallowEqualDimensions dimensions
                (publicDimensionsMemo c, allocated c)
      in (fst r, c\<lparr>publicDimensionsMemo := fst (snd r), allocated := snd (snd r)\<rparr>))"

definition getPropsFromState :: "collector \<Rightarrow> IViewport \<times> collector" where
  "getPropsFromState c =
     (let r1 = getPublicScroll (lastSyncedScrollState c) c;
          r2 = getPublicDimensions (lastSyncedDimensionsState (snd r1)) (snd r1)
      in (\<lparr> vp_scroll = fst r1, vp_dimensions = fst r2 \<rparr>, snd r2))"

definition syncState :: "collector \<Rightarrow> collector" where
  "syncState c =
     (let scrollDidUpdate =
            (\<not> shallowEqualScroll (lastSyncedScrollState c) (scrollState c));
          dimensionsDidUpdate =
            (\<not> shallowEqualDimensions (lastSyncedDimensionsState c) (dimensionsState c));
          c1 = (if scrollDidUpdate then c\<lparr>lastSyncedScrollState := scrollState c\<rparr> else c);
          c2 = (if dimensionsDidUpdate
                then c1\<lparr>lastSyncedDimensionsState := dimensionsState c1\<rparr> else c1)
      in if scrollDidUpdate \<or> dimensionsDidUpdate then
           let r = getPropsFromState c2;
               publicState = fst r;
               c3 = snd r;
               flags = \<lparr> u_scrollDidUpdate = scrollDidUpdate,
                         u_dimensionsDidUpdate = dimensionsDidUpdate \<rparr>;
               c4 = c3\<lparr>onUpdate_calls := onUpdate_calls c3 @ [(publicState, flags)]\<rparr>
           in c4\<lparr>updateOnIdle_calls := updateOnIdle_calls c4 @ [(publicState, flags)]\<rparr>
         else c2)"

text \<open>
  One run of \<^verbatim>\<open>tick\<close>. Its last statement asks for the next animation frame; the
  host then runs \<^verbatim>\<open>tick\<close> again, which is the next \<open>Frame\<close> event below.
\<close>

definition tick :: "collector \<Rightarrow> collector" where
  "tick c =
     (let c1 = (if componentMightHaveUpdated c then syncState c else c)
      in c1\<lparr>componentMightHaveUpdated := False\<rparr>)"

subsection \<open>Runs\<close>

text \<open>
  What the host does with a mounted collector: it delivers a scroll event (with the
  window as it then is), runs the debounced resize function (with the environment as it
  then is), runs a frame, or a collaborator reads the public state. An error raised by
  a handler ends that handler only.
\<close>

datatype event = Scroll window | Resize env | Frame | ReadProps

fun step :: "collector \<Rightarrow> event \<Rightarrow> collector" where
  "step c (Scroll w) = snd (handleScroll w c)"
| "step c (Resize e) = snd (handleResize e c)"
| "step c Frame = tick c"
| "step c ReadProps = snd (getPropsFromState c)"

definition run :: "collector \<Rightarrow> event list \<Rightarrow> collector" where
  "run c es = foldl step c es"

text \<open>A window that reports the scroll position \<open>(x, y)\<close>.\<close>

definition sample :: "number \<Rightarrow> number \<Rightarrow> window" where
  "sample x y =
     \<lparr> scrollX = Some x, scrollY = Some y, pageXOffset = x, pageYOffset = y,
       innerWidth = Num 1024, innerHeight = Num 768,
       outerWidth = Num 1024, outerHeight = Num 768 \<rparr>"

text \<open>The collector of a fresh scroll state, outside any window (all sizes zero).\<close>

definition initCollector :: collector where
  "initCollector =
     \<lparr> scrollState = createInitScrollState, dimensionsState = createEmptyDimensionState,
       lastSyncedScrollState = createInitScrollState,
       lastSyncedDimensionsState = createEmptyDimensionState,
       componentMightHaveUpdated = False,
       publicScrollMemo = None, publicDimensionsMemo = None,
       allocated = 0, onUpdate_calls = [], updateOnIdle_calls = [] \<rparr>"

text \<open>A browser window of 1024 by 768 pixels showing a document of 1024 by 3000.\<close>

definition browser :: env where
  "browser =
     \<lparr> env_window = Some (sample (Num 0) (Num 0)),
       env_document =
         Document (Some \<lparr> clientWidth = Num 1024, clientHeight = Num 768,
                          scrollHeight = Num 3000, scrollWidth = Num 1024,
                          offsetHeight = Num 3000, offsetWidth = Num 1024 \<rparr>) \<rparr>"

text \<open>
  No two consecutive calls of a list of \<^verbatim>\<open>onUpdate\<close> calls carry snapshots that are
  shallow-equal on both the scroll side and the dimensions side.
\<close>

fun deliveries_differ :: "(IViewport \<times> update_flags) list \<Rightarrow> bool" where
  "deliveries_differ (a # b # rest) =
     ((\<not> shallowEqualScroll (snd (vp_scroll (fst a))) (snd (vp_scroll (fst b))) \<or>
       \<not> shallowEqualDimensions (snd (vp_dimensions (fst a))) (snd (vp_dimensions (fst b))))
      \<and> deliveries_differ (b # rest))"
| "deliveries_differ _ = True"

text \<open>
  The invariant of the publication scheduler. A cached result is a copy of the cached
  argument. Once \<^verbatim>\<open>onUpdate\<close> has been called, the snapshot of the last call holds
  the fields of the two last-synced copies, and the cache of a side whose last-synced
  copy equals itself holds that copy and the object last delivered for it.
\<close>

definition memo_ok :: "'a memo \<Rightarrow> bool" where
  "memo_ok m = (case m of None \<Rightarrow> True | Some (a, r) \<Rightarrow> snd r = a)"

definition sync_inv :: "collector \<Rightarrow> bool" where
  "sync_inv c =
     (memo_ok (publicScrollMemo c) \<and> memo_ok (publicDimensionsMemo c) \<and>
      deliveries_differ (onUpdate_calls c) \<and>
      (onUpdate_calls c = [] \<or>
       (snd (vp_scroll (fst (last (onUpdate_calls c)))) = lastSyncedScrollState c \<and>
        snd (vp_dimensions (fst (last (onUpdate_calls c)))) = lastSyncedDimensionsState c \<and>
        (shallowEqualScroll (lastSyncedScrollState c) (lastSyncedScrollState c) \<longrightarrow>
           publicScrollMemo c =
             Some (lastSyncedScrollState c, vp_scroll (fst (last (onUpdate_calls c))))) \<and>
        (shallowEqualDimensions (lastSyncedDimensionsState c) (lastSyncedDimensionsState c) \<longrightarrow>
           publicDimensionsMemo c =
             Some (lastSyncedDimensionsState c,
                   vp_dimensions (fst (last (onUpdate_calls c))))))))"

section \<open>Properties of the sampler\<close>

lemma numeric_iff: "numeric a \<longleftrightarrow> (\<exists>i. a = Num i)"
  by (cases a) auto

lemma isScrollingLeft_numeric:
  assumes "numeric x" and "numeric (s_x prev)"
  shows "isScrollingLeft x prev =
           Inr (if num_lt x (s_x prev) then True
                else if num_gt x (s_x prev) then False else s_isScrollingLeft prev)"
  using assms by (cases x; cases "s_x prev") (auto simp: isScrollingLeft_def)

lemma isScrollingUp_numeric:
  assumes "numeric y" and "numeric (s_y prev)"
  shows "isScrollingUp y prev =
           Inr (if num_lt y (s_y prev) then True
                else if num_gt y (s_y prev) then False else s_isScrollingUp prev)"
  using assms by (cases y; cases "s_y prev") (auto simp: isScrollingUp_def)

lemma isScrollingLeft_raises_iff:
  "(\<exists>err. isScrollingLeft x prev = Inl err) \<longleftrightarrow> \<not> numeric x \<or> \<not> numeric (s_x prev)"
  by (cases x; cases "s_x prev") (auto simp: isScrollingLeft_def)

lemma isScrollingUp_raises_iff:
  "(\<exists>err. isScrollingUp y prev = Inl err) \<longleftrightarrow> \<not> numeric y \<or> \<not> numeric (s_y prev)"
  by (cases y; cases "s_y prev") (auto simp: isScrollingUp_def)

lemma isScrollingUp_fields:
  "s_y p = s_y q \<Longrightarrow> s_isScrollingUp p = s_isScrollingUp q \<Longrightarrow>
   isScrollingUp y p = isScrollingUp y q"
  by (simp add: isScrollingUp_def)

lemma handleScroll_ok:
  assumes l: "isScrollingLeft (fst (getNodeScroll w)) (scrollState c) = Inr l"
      and u: "isScrollingUp (snd (getNodeScroll w)) (scrollState c) = Inr u"
  shows "handleScroll w c =
    (None, c\<lparr>scrollState :=
               \<lparr> s_x = fst (getNodeScroll w), s_y = snd (getNodeScroll w),
                 s_isScrollingUp = u, s_isScrollingDown = (\<not> u),
                 s_isScrollingLeft = l, s_isScrollingRight = (\<not> l),
                 s_xTurn = (if l = s_isScrollingLeft (scrollState c)
                            then s_xTurn (scrollState c) else fst (getNodeScroll w)),
                 s_yTurn = (if u = s_isScrollingUp (scrollState c)
                            then s_yTurn (scrollState c) else snd (getNodeScroll w)),
                 s_xDTurn = num_sub (fst (getNodeScroll w))
                              (if l = s_isScrollingLeft (scrollState c)
                               then s_xTurn (scrollState c) else fst (getNodeScroll w)),
                 s_yDTurn = num_sub (snd (getNodeScroll w))
                              (if u = s_isScrollingUp (scrollState c)
                               then s_yTurn (scrollState c) else snd (getNodeScroll w)) \<rparr>,
             componentMightHaveUpdated := True\<rparr>)"
proof -
  let ?s2 = "(scrollState c)\<lparr>s_isScrollingLeft := l, s_isScrollingRight := \<not> l\<rparr>"
  have "isScrollingUp (snd (getNodeScroll w)) ?s2 = Inr u"
    using u isScrollingUp_fields [of ?s2 "scrollState c"] by simp
  then show ?thesis
    using l by (simp add: handleScroll_def Let_def)
qed


lemma handleScroll_numeric:
  assumes "numeric (fst (getNodeScroll w))" and "numeric (s_x (scrollState c))"
      and "numeric (snd (getNodeScroll w))" and "numeric (s_y (scrollState c))"
  obtains l u where
    "isScrollingLeft (fst (getNodeScroll w)) (scrollState c) = Inr l"
    "isScrollingUp (snd (getNodeScroll w)) (scrollState c) = Inr u"
  using assms isScrollingLeft_numeric isScrollingUp_numeric by blast


text \<open>
  Claim C7. The initial scroll state has \<open>x = y = 0\<close>, all four direction flags false,
  both turns and both deltas \<open>0\<close>. Processing the first scroll sample \<open>(0, 50)\<close> from
  it raises no error and yields \<open>isScrollingUp = false\<close>, \<open>yTurn = 0\<close> and
  \<open>yDTurn = 50\<close>.
\<close>

theorem first_sample_scroll_down:
  "createInitScrollState =
     \<lparr> s_x = Num 0, s_y = Num 0, s_isScrollingUp = False, s_isScrollingDown = False,
       s_isScrollingLeft = False, s_isScrollingRight = False,
       s_xTurn = Num 0, s_yTurn = Num 0, s_xDTurn = Num 0, s_yDTurn = Num 0 \<rparr> \<and>
   scrollState initCollector = createInitScrollState \<and>
   fst (handleScroll (sample (Num 0) (Num 50)) initCollector) = None \<and>
   s_isScrollingUp (scrollState (snd (handleScroll (sample (Num 0) (Num 50)) initCollector)))
     = False \<and>
   s_yTurn (scrollState (snd (handleScroll (sample (Num 0) (Num 50)) initCollector)))
     = Num 0 \<and>
   s_yDTurn (scrollState (snd (handleScroll (sample (Num 0) (Num 50)) initCollector)))
     = Num 50"
  by (simp add: handleScroll_def getNodeScroll_def isScrollingLeft_def isScrollingUp_def
      Let_def sample_def initCollector_def createInitScrollState_def)

text \<open>
  Claim C1 says that from a committed position \<open>y = 50\<close> reached while scrolling down,
  the sample \<open>y = 30\<close> gives \<open>isScrollingUp = true\<close>, \<open>yTurn = 50\<close> and
  \<open>yDTurn = -20\<close>. On the run \<open>(0, 50)\<close>, \<open>(0, 30)\<close> from the initial state the flag is
  indeed set, but \<open>yTurn\<close> is not \<open>50\<close> and \<open>yDTurn\<close> is not \<open>-20\<close>.
\<close>

theorem turn_at_50_counterexample:
  "s_y (scrollState (run initCollector [Scroll (sample (Num 0) (Num 50))])) = Num 50 \<and>
   s_isScrollingDown (scrollState (run initCollector [Scroll (sample (Num 0) (Num 50))])) \<and>
   s_isScrollingUp (scrollState (snd (handleScroll (sample (Num 0) (Num 30))
      (run initCollector [Scroll (sample (Num 0) (Num 50))])))) \<and>
   s_yTurn (scrollState (snd (handleScroll (sample (Num 0) (Num 30))
      (run initCollector [Scroll (sample (Num 0) (Num 50))])))) \<noteq> Num 50 \<and>
   s_yDTurn (scrollState (snd (handleScroll (sample (Num 0) (Num 30))
      (run initCollector [Scroll (sample (Num 0) (Num 50))])))) \<noteq> Num (- 20)"
  by (simp add: run_def handleScroll_def getNodeScroll_def isScrollingLeft_def
      isScrollingUp_def Let_def sample_def initCollector_def createInitScrollState_def)

text \<open>
  Claim C1, amended. Whenever the committed position is \<open>y = 50\<close>, the collector is
  scrolling down (\<open>isScrollingUp\<close> is false) and the horizontal coordinates are numeric,
  the sample \<open>y = 30\<close> is processed without error and gives \<open>isScrollingUp = true\<close>,
  \<open>yTurn = 30\<close> (the new sample position) and \<open>yDTurn = 0\<close>.
\<close>

theorem turn_from_50_to_30:
  assumes "s_y (scrollState c) = Num 50"
      and "\<not> s_isScrollingUp (scrollState c)"
      and "numeric (s_x (scrollState c))"
      and "numeric x"
  shows "fst (handleScroll (sample x (Num 30)) c) = None \<and>
         s_isScrollingUp (scrollState (snd (handleScroll (sample x (Num 30)) c))) = True \<and>
         s_yTurn (scrollState (snd (handleScroll (sample x (Num 30)) c))) = Num 30 \<and>
         s_yDTurn (scrollState (snd (handleScroll (sample x (Num 30)) c))) = Num 0"
proof -
  have xy: "getNodeScroll (sample x (Num 30)) = (x, Num 30)"
    by (simp add: getNodeScroll_def sample_def)
  have l: "isScrollingLeft x (scrollState c) =
             Inr (if num_lt x (s_x (scrollState c)) then True
                  else if num_gt x (s_x (scrollState c)) then False
                  else s_isScrollingLeft (scrollState c))"
    by (rule isScrollingLeft_numeric [OF assms(4) assms(3)])
  have u: "isScrollingUp (Num 30) (scrollState c) = Inr True"
    using assms(1) by (simp add: isScrollingUp_def)
  show ?thesis
    using assms(2) by (simp add: handleScroll_ok [where u = True] xy l u)
qed

theorem turn_from_50_to_30_witness:
  "s_y (scrollState (run initCollector [Scroll (sample (Num 0) (Num 50))])) = Num 50 \<and>
   \<not> s_isScrollingUp (scrollState (run initCollector [Scroll (sample (Num 0) (Num 50))])) \<and>
   numeric (s_x (scrollState (run initCollector [Scroll (sample (Num 0) (Num 50))]))) \<and>
   numeric (Num 0) \<and>
   s_yTurn (scrollState (snd (handleScroll (sample (Num 0) (Num 30))
      (run initCollector [Scroll (sample (Num 0) (Num 50))])))) = Num 30 \<and>
   s_yDTurn (scrollState (snd (handleScroll (sample (Num 0) (Num 30))
      (run initCollector [Scroll (sample (Num 0) (Num 50))])))) = Num 0"
proof -
  let ?c = "run initCollector [Scroll (sample (Num 0) (Num 50))]"
  have h: "s_y (scrollState ?c) = Num 50" "\<not> s_isScrollingUp (scrollState ?c)"
    "numeric (s_x (scrollState ?c))" "numeric (Num 0)"
    by (simp_all add: run_def handleScroll_def getNodeScroll_def isScrollingLeft_def
      isScrollingUp_def Let_def sample_def initCollector_def createInitScrollState_def)
  from turn_from_50_to_30 [OF h] h show ?thesis by simp
qed

text \<open>
  Claim C2. For every scroll sample with numeric coordinates, processed from a state with
  numeric coordinates, \<^verbatim>\<open>handleScroll\<close> raises no error, the new direction flags are
  the results of \<^verbatim>\<open>isScrollingLeft\<close> and \<^verbatim>\<open>isScrollingUp\<close>, and: \<open>xTurn\<close> keeps
  its previous value when the new \<open>isScrollingLeft\<close> equals the one before the sample and
  otherwise is the raw \<open>x\<close>; \<open>yTurn\<close> follows the same rule against \<open>isScrollingUp\<close>;
  \<open>xDTurn = rawX - xTurn\<close> and \<open>yDTurn = rawY - yTurn\<close> with the turns just updated;
  and \<open>x = rawX\<close>, \<open>y = rawY\<close> are committed.
\<close>

theorem handleScroll_turn_rule:
  assumes "numeric (fst (getNodeScroll w))" and "numeric (s_x (scrollState c))"
      and "numeric (snd (getNodeScroll w))" and "numeric (s_y (scrollState c))"
  shows "fst (handleScroll w c) = None \<and>
         isScrollingLeft (fst (getNodeScroll w)) (scrollState c) =
           Inr (s_isScrollingLeft (scrollState (snd (handleScroll w c)))) \<and>
         isScrollingUp (snd (getNodeScroll w)) (scrollState c) =
           Inr (s_isScrollingUp (scrollState (snd (handleScroll w c)))) \<and>
         s_xTurn (scrollState (snd (handleScroll w c))) =
           (if s_isScrollingLeft (scrollState (snd (handleScroll w c))) =
               s_isScrollingLeft (scrollState c)
            then s_xTurn (scrollState c) else fst (getNodeScroll w)) \<and>
         s_yTurn (scrollState (snd (handleScroll w c))) =
           (if s_isScrollingUp (scrollState (snd (handleScroll w c))) =
               s_isScrollingUp (scrollState c)
            then s_yTurn (scrollState c) else snd (getNodeScroll w)) \<and>
         s_xDTurn (scrollState (snd (handleScroll w c))) =
           num_sub (fst (getNodeScroll w)) (s_xTurn (scrollState (snd (handleScroll w c)))) \<and>
         s_yDTurn (scrollState (snd (handleScroll w c))) =
           num_sub (snd (getNodeScroll w)) (s_yTurn (scrollState (snd (handleScroll w c)))) \<and>
         s_x (scrollState (snd (handleScroll w c))) = fst (getNodeScroll w) \<and>
         s_y (scrollState (snd (handleScroll w c))) = snd (getNodeScroll w)"
proof -
  obtain l u where lu:
    "isScrollingLeft (fst (getNodeScroll w)) (scrollState c) = Inr l"
    "isScrollingUp (snd (getNodeScroll w)) (scrollState c) = Inr u"
    using assms by (rule handleScroll_numeric)
  show ?thesis
    by (simp add: handleScroll_ok [OF lu] lu)
qed

theorem handleScroll_turn_rule_witness:
  "numeric (fst (getNodeScroll (sample (Num 7) (Num 30)))) \<and>
   numeric (snd (getNodeScroll (sample (Num 7) (Num 30)))) \<and>
   numeric (s_x (scrollState (run initCollector [Scroll (sample (Num 0) (Num 50))]))) \<and>
   numeric (s_y (scrollState (run initCollector [Scroll (sample (Num 0) (Num 50))]))) \<and>
   scrollState (snd (handleScroll (sample (Num 7) (Num 30))
      (run initCollector [Scroll (sample (Num 0) (Num 50))]))) =
     \<lparr> s_x = Num 7, s_y = Num 30, s_isScrollingUp = True, s_isScrollingDown = False,
       s_isScrollingLeft = False, s_isScrollingRight = True,
       s_xTurn = Num 0, s_yTurn = Num 30, s_xDTurn = Num 7, s_yDTurn = Num 0 \<rparr>"
proof -
  let ?c = "run initCollector [Scroll (sample (Num 0) (Num 50))]"
  let ?w = "sample (Num 7) (Num 30)"
  have c: "scrollState ?c =
     \<lparr> s_x = Num 0, s_y = Num 50, s_isScrollingUp = False, s_isScrollingDown = True,
       s_isScrollingLeft = False, s_isScrollingRight = True,
       s_xTurn = Num 0, s_yTurn = Num 0, s_xDTurn = Num 0, s_yDTurn = Num 50 \<rparr>"
    by (simp add: run_def handleScroll_def getNodeScroll_def isScrollingLeft_def
      isScrollingUp_def Let_def sample_def initCollector_def createInitScrollState_def)
  have w: "getNodeScroll ?w = (Num 7, Num 30)"
    by (simp add: getNodeScroll_def sample_def)
  have h: "numeric (fst (getNodeScroll ?w))" "numeric (s_x (scrollState ?c))"
    "numeric (snd (getNodeScroll ?w))" "numeric (s_y (scrollState ?c))"
    by (simp_all add: c w)
  have "scrollState (snd (handleScroll ?w ?c)) =
     \<lparr> s_x = Num 7, s_y = Num 30, s_isScrollingUp = True, s_isScrollingDown = False,
       s_isScrollingLeft = False, s_isScrollingRight = True,
       s_xTurn = Num 0, s_yTurn = Num 30, s_xDTurn = Num 7, s_yDTurn = Num 0 \<rparr>"
    using handleScroll_turn_rule [OF h]
    by (simp add: handleScroll_def isScrollingLeft_def isScrollingUp_def Let_def c w)
  with h show ?thesis by simp
qed

text \<open>
  Claim C3. Whenever processing a (numeric) scroll sample changes \<open>isScrollingLeft\<close>,
  \<open>xTurn\<close> becomes the raw \<open>x\<close> of the sample and \<open>xDTurn\<close> is exactly \<open>0\<close>; whenever
  it changes \<open>isScrollingUp\<close>, \<open>yTurn\<close> becomes the raw \<open>y\<close> and \<open>yDTurn\<close> is
  exactly \<open>0\<close>.
\<close>

theorem flip_sets_turn_to_new_position:
  assumes "numeric (fst (getNodeScroll w))" and "numeric (s_x (scrollState c))"
      and "numeric (snd (getNodeScroll w))" and "numeric (s_y (scrollState c))"
  shows "(s_isScrollingLeft (scrollState (snd (handleScroll w c))) \<noteq>
            s_isScrollingLeft (scrollState c) \<longrightarrow>
          s_xTurn (scrollState (snd (handleScroll w c))) = fst (getNodeScroll w) \<and>
          s_xDTurn (scrollState (snd (handleScroll w c))) = Num 0) \<and>
         (s_isScrollingUp (scrollState (snd (handleScroll w c))) \<noteq>
            s_isScrollingUp (scrollState c) \<longrightarrow>
          s_yTurn (scrollState (snd (handleScroll w c))) = snd (getNodeScroll w) \<and>
          s_yDTurn (scrollState (snd (handleScroll w c))) = Num 0)"
proof -
  obtain l u where lu:
    "isScrollingLeft (fst (getNodeScroll w)) (scrollState c) = Inr l"
    "isScrollingUp (snd (getNodeScroll w)) (scrollState c) = Inr u"
    using assms by (rule handleScroll_numeric)
  obtain i j where ij: "fst (getNodeScroll w) = Num i" "snd (getNodeScroll w) = Num j"
    using assms(1,3) by (auto simp: numeric_iff)
  show ?thesis
    by (simp add: handleScroll_ok [OF lu] ij)
qed

theorem flip_sets_turn_to_new_position_witness:
  "s_isScrollingLeft (scrollState (snd (handleScroll (sample (Num 20) (Num 30))
      (run initCollector [Scroll (sample (Num 40) (Num 50))])))) \<noteq>
     s_isScrollingLeft (scrollState (run initCollector [Scroll (sample (Num 40) (Num 50))])) \<and>
   s_isScrollingUp (scrollState (snd (handleScroll (sample (Num 20) (Num 30))
      (run initCollector [Scroll (sample (Num 40) (Num 50))])))) \<noteq>
     s_isScrollingUp (scrollState (run initCollector [Scroll (sample (Num 40) (Num 50))])) \<and>
   s_xTurn (scrollState (snd (handleScroll (sample (Num 20) (Num 30))
      (run initCollector [Scroll (sample (Num 40) (Num 50))])))) = Num 20 \<and>
   s_xDTurn (scrollState (snd (handleScroll (sample (Num 20) (Num 30))
      (run initCollector [Scroll (sample (Num 40) (Num 50))])))) = Num 0 \<and>
   s_yTurn (scrollState (snd (handleScroll (sample (Num 20) (Num 30))
      (run initCollector [Scroll (sample (Num 40) (Num 50))])))) = Num 30 \<and>
   s_yDTurn (scrollState (snd (handleScroll (sample (Num 20) (Num 30))
      (run initCollector [Scroll (sample (Num 40) (Num 50))])))) = Num 0"
proof -
  let ?c = "run initCollector [Scroll (sample (Num 40) (Num 50))]"
  let ?w = "sample (Num 20) (Num 30)"
  have c: "scrollState ?c =
     \<lparr> s_x = Num 40, s_y = Num 50, s_isScrollingUp = False, s_isScrollingDown = True,
       s_isScrollingLeft = False, s_isScrollingRight = True,
       s_xTurn = Num 0, s_yTurn = Num 0, s_xDTurn = Num 40, s_yDTurn = Num 50 \<rparr>"
    by (simp add: run_def handleScroll_def getNodeScroll_def isScrollingLeft_def
      isScrollingUp_def Let_def sample_def initCollector_def createInitScrollState_def)
  have w: "getNodeScroll ?w = (Num 20, Num 30)"
    by (simp add: getNodeScroll_def sample_def)
  have h: "numeric (fst (getNodeScroll ?w))" "numeric (s_x (scrollState ?c))"
    "numeric (snd (getNodeScroll ?w))" "numeric (s_y (scrollState ?c))"
    by (simp_all add: c w)
  have f: "s_isScrollingLeft (scrollState (snd (handleScroll ?w ?c)))"
    "s_isScrollingUp (scrollState (snd (handleScroll ?w ?c)))"
    by (simp_all add: handleScroll_def isScrollingLeft_def isScrollingUp_def Let_def c w)
  from flip_sets_turn_to_new_position [OF h] f show ?thesis
    by (simp add: c w)
qed

text \<open>
  Claim C9. Without a window, \<^verbatim>\<open>createInitDimensionsState\<close> does not fail and returns
  the dimension state whose eight fields are \<open>0\<close>; \<^verbatim>\<open>getClientDimensions\<close> returns the
  same state when the document has no document element (or the document itself is falsy).
\<close>

theorem no_environment_zero_dimensions:
  "createEmptyDimensionState =
     \<lparr> d_width = Num 0, d_height = Num 0, d_clientWidth = Num 0, d_clientHeight = Num 0,
       d_outerWidth = Num 0, d_outerHeight = Num 0,
       d_documentWidth = Num 0, d_documentHeight = Num 0 \<rparr> \<and>
   (env_window e = None \<longrightarrow> createInitDimensionsState e = Inr createEmptyDimensionState) \<and>
   (env_document e = Document None \<or> env_document e = FalsyDocument \<longrightarrow>
      getClientDimensions e = Inr createEmptyDimensionState)"
  by (auto simp: createEmptyDimensionState_def createInitDimensionsState_def
      getClientDimensions_def)

theorem no_environment_zero_dimensions_witness:
  "createInitDimensionsState \<lparr> env_window = None, env_document = NoDocumentGlobal \<rparr> =
     Inr \<lparr> d_width = Num 0, d_height = Num 0, d_clientWidth = Num 0, d_clientHeight = Num 0,
       d_outerWidth = Num 0, d_outerHeight = Num 0,
       d_documentWidth = Num 0, d_documentHeight = Num 0 \<rparr> \<and>
   getClientDimensions \<lparr> env_window = Some (sample (Num 0) (Num 0)),
                         env_document = Document None \<rparr> =
     Inr \<lparr> d_width = Num 0, d_height = Num 0, d_clientWidth = Num 0, d_clientHeight = Num 0,
       d_outerWidth = Num 0, d_outerHeight = Num 0,
       d_documentWidth = Num 0, d_documentHeight = Num 0 \<rparr>"
  using no_environment_zero_dimensions
          [of "\<lparr> env_window = None, env_document = NoDocumentGlobal \<rparr>"]
        no_environment_zero_dimensions
          [of "\<lparr> env_window = Some (sample (Num 0) (Num 0)), env_document = Document None \<rparr>"]
  by simp

text \<open>
  Claim C10. For every numeric coordinate and every scroll state whose stored coordinate
  is numeric, exactly one of the three cases (less, greater, equal) applies in
  \<^verbatim>\<open>isScrollingLeft\<close> and in \<^verbatim>\<open>isScrollingUp\<close>; both return a boolean and
  neither raises. (\<open>isScrollingLeft_raises_iff\<close> and \<open>isScrollingUp_raises_iff\<close> above:
  the \<^verbatim>\<open>default\<close> branch is taken exactly when a compared value is \<open>NaN\<close>.)
\<close>

theorem direction_default_branch_unreachable:
  assumes "numeric x" and "numeric (s_x prev)" and "numeric y" and "numeric (s_y prev)"
  shows "(num_lt x (s_x prev) \<and> \<not> num_gt x (s_x prev) \<and> \<not> num_eq x (s_x prev) \<or>
          num_gt x (s_x prev) \<and> \<not> num_lt x (s_x prev) \<and> \<not> num_eq x (s_x prev) \<or>
          num_eq x (s_x prev) \<and> \<not> num_lt x (s_x prev) \<and> \<not> num_gt x (s_x prev)) \<and>
         (num_lt y (s_y prev) \<and> \<not> num_gt y (s_y prev) \<and> \<not> num_eq y (s_y prev) \<or>
          num_gt y (s_y prev) \<and> \<not> num_lt y (s_y prev) \<and> \<not> num_eq y (s_y prev) \<or>
          num_eq y (s_y prev) \<and> \<not> num_lt y (s_y prev) \<and> \<not> num_gt y (s_y prev)) \<and>
         (\<exists>b. isScrollingLeft x prev = Inr b) \<and> (\<exists>b. isScrollingUp y prev = Inr b) \<and>
         (\<forall>err. isScrollingLeft x prev \<noteq> Inl err) \<and> (\<forall>err. isScrollingUp y prev \<noteq> Inl err)"
proof -
  obtain i j k l where n: "x = Num i" "s_x prev = Num j" "y = Num k" "s_y prev = Num l"
    using assms by (auto simp: numeric_iff)
  have "i < j \<or> i > j \<or> i = j" and "k < l \<or> k > l \<or> k = l"
    by arith+
  then show ?thesis
    by (auto simp: n isScrollingLeft_def isScrollingUp_def)
qed

theorem direction_default_branch_unreachable_witness:
  "numeric (Num 30) \<and> numeric (s_x createInitScrollState) \<and>
   numeric (s_y createInitScrollState) \<and>
   isScrollingLeft (Num 30) createInitScrollState = Inr False \<and>
   isScrollingUp (Num 30) createInitScrollState = Inr False"
proof -
  have h: "numeric (Num 30)" "numeric (s_x createInitScrollState)"
    "numeric (s_y createInitScrollState)"
    by (simp_all add: createInitScrollState_def)
  from direction_default_branch_unreachable [OF h(1) h(2) h(1) h(3)] h show ?thesis
    by (auto simp: isScrollingLeft_def isScrollingUp_def createInitScrollState_def)
qed

section \<open>Sequences of scroll samples\<close>


lemma run_Nil: "run c [] = c"
  by (simp add: run_def)

lemma run_snoc: "run c (es @ [e]) = step (run c es) e"
  by (simp add: run_def)

lemma handleScroll_cases:
  obtains (raise_x) err where "handleScroll w c = (Some err, c)"
      and "\<not> numeric (fst (getNodeScroll w)) \<or> \<not> numeric (s_x (scrollState c))"
  | (raise_y) err l where
      "handleScroll w c =
         (Some err, c\<lparr>scrollState :=
                       (scrollState c)\<lparr>s_isScrollingLeft := l, s_isScrollingRight := \<not> l\<rparr>\<rparr>)"
      and "\<not> numeric (snd (getNodeScroll w)) \<or> \<not> numeric (s_y (scrollState c))"
  | (ok) l u where "isScrollingLeft (fst (getNodeScroll w)) (scrollState c) = Inr l"
      and "isScrollingUp (snd (getNodeScroll w)) (scrollState c) = Inr u"
      and "numeric (fst (getNodeScroll w))" and "numeric (snd (getNodeScroll w))"
proof (cases "isScrollingLeft (fst (getNodeScroll w)) (scrollState c)")
  case (Inl err)
  then have "handleScroll w c = (Some err, c)"
    by (simp add: handleScroll_def Let_def)
  moreover have "\<not> numeric (fst (getNodeScroll w)) \<or> \<not> numeric (s_x (scrollState c))"
    using Inl isScrollingLeft_raises_iff by blast
  ultimately show ?thesis by (rule raise_x)
next
  case l: (Inr l)
  have nx: "numeric (fst (getNodeScroll w))"
    using l isScrollingLeft_raises_iff [of "fst (getNodeScroll w)" "scrollState c"]
    by (cases "numeric (fst (getNodeScroll w))") auto
  show ?thesis
  proof (cases "isScrollingUp (snd (getNodeScroll w)) (scrollState c)")
    case (Inl err)
    let ?s2 = "(scrollState c)\<lparr>s_isScrollingLeft := l, s_isScrollingRight := \<not> l\<rparr>"
    have "isScrollingUp (snd (getNodeScroll w)) ?s2 = Inl err"
      using Inl isScrollingUp_fields [of ?s2 "scrollState c"] by simp
    then have "handleScroll w c = (Some err, c\<lparr>scrollState := ?s2\<rparr>)"
      using l by (simp add: handleScroll_def Let_def)
    moreover have "\<not> numeric (snd (getNodeScroll w)) \<or> \<not> numeric (s_y (scrollState c))"
      using Inl isScrollingUp_raises_iff by blast
    ultimately show ?thesis by (rule raise_y)
  next
    case u: (Inr u)
    have ny: "numeric (snd (getNodeScroll w))"
      using u isScrollingUp_raises_iff [of "snd (getNodeScroll w)" "scrollState c"]
      by (cases "numeric (snd (getNodeScroll w))") auto
    from l u nx ny show ?thesis by (rule ok)
  qed
qed

lemma handleScroll_keeps_numeric:
  assumes "numeric (s_x (scrollState c))" and "numeric (s_y (scrollState c))"
  shows "numeric (s_x (scrollState (snd (handleScroll w c)))) \<and>
         numeric (s_y (scrollState (snd (handleScroll w c))))"
proof (cases w c rule: handleScroll_cases)
  case (raise_x err)
  with assms show ?thesis by simp
next
  case (raise_y err l)
  with assms show ?thesis by simp
next
  case (ok l u)
  then show ?thesis by (simp add: handleScroll_ok [OF ok(1,2)])
qed

lemma handleScroll_keeps_exclusive:
  assumes "\<not> (s_isScrollingUp (scrollState c) \<and> s_isScrollingDown (scrollState c))"
      and "\<not> (s_isScrollingLeft (scrollState c) \<and> s_isScrollingRight (scrollState c))"
  shows "\<not> (s_isScrollingUp (scrollState (snd (handleScroll w c))) \<and>
            s_isScrollingDown (scrollState (snd (handleScroll w c)))) \<and>
         \<not> (s_isScrollingLeft (scrollState (snd (handleScroll w c))) \<and>
            s_isScrollingRight (scrollState (snd (handleScroll w c))))"
proof (cases w c rule: handleScroll_cases)
  case (raise_x err)
  with assms show ?thesis by simp
next
  case (raise_y err l)
  with assms show ?thesis by simp
next
  case (ok l u)
  then show ?thesis by (simp add: handleScroll_ok [OF ok(1,2)])
qed

lemma scroll_run_numeric:
  assumes "scrollState c0 = createInitScrollState"
  shows "numeric (s_x (scrollState (run c0 (map Scroll ws)))) \<and>
         numeric (s_y (scrollState (run c0 (map Scroll ws))))"
proof (induction ws rule: rev_induct)
  case Nil
  show ?case by (simp add: run_Nil assms createInitScrollState_def)
next
  case (snoc w ws)
  then show ?case
    by (simp add: run_snoc handleScroll_keeps_numeric)
qed

lemma scroll_run_exclusive:
  assumes "scrollState c0 = createInitScrollState"
  shows "\<not> (s_isScrollingUp (scrollState (run c0 (map Scroll ws))) \<and>
            s_isScrollingDown (scrollState (run c0 (map Scroll ws)))) \<and>
         \<not> (s_isScrollingLeft (scrollState (run c0 (map Scroll ws))) \<and>
            s_isScrollingRight (scrollState (run c0 (map Scroll ws))))"
proof (induction ws rule: rev_induct)
  case Nil
  show ?case by (simp add: run_Nil assms createInitScrollState_def)
next
  case (snoc w ws)
  then show ?case
    using handleScroll_keeps_exclusive [of "run c0 (map Scroll ws)" w]
    by (simp add: run_snoc)
qed

text \<open>After a sample that was processed, the derived fields are settled.\<close>

lemma scroll_run_settled:
  assumes c0: "scrollState c0 = createInitScrollState"
      and ne: "ws \<noteq> []"
      and num: "numeric (fst (getNodeScroll (last ws)))" "numeric (snd (getNodeScroll (last ws)))"
  shows "s_isScrollingDown (scrollState (run c0 (map Scroll ws))) =
           (\<not> s_isScrollingUp (scrollState (run c0 (map Scroll ws)))) \<and>
         s_isScrollingRight (scrollState (run c0 (map Scroll ws))) =
           (\<not> s_isScrollingLeft (scrollState (run c0 (map Scroll ws)))) \<and>
         s_xDTurn (scrollState (run c0 (map Scroll ws))) =
           num_sub (s_x (scrollState (run c0 (map Scroll ws))))
                   (s_xTurn (scrollState (run c0 (map Scroll ws)))) \<and>
         s_yDTurn (scrollState (run c0 (map Scroll ws))) =
           num_sub (s_y (scrollState (run c0 (map Scroll ws))))
                   (s_yTurn (scrollState (run c0 (map Scroll ws))))"
proof -
  obtain vs w where ws: "ws = vs @ [w]"
    using ne by (cases ws rule: rev_cases) auto
  let ?c = "run c0 (map Scroll vs)"
  have n: "numeric (s_x (scrollState ?c))" "numeric (s_y (scrollState ?c))"
    using scroll_run_numeric [OF c0] by simp_all
  obtain l u where lu:
    "isScrollingLeft (fst (getNodeScroll w)) (scrollState ?c) = Inr l"
    "isScrollingUp (snd (getNodeScroll w)) (scrollState ?c) = Inr u"
    using num n by (auto simp: ws intro: handleScroll_numeric)
  show ?thesis
    by (simp add: ws run_snoc handleScroll_ok [OF lu])
qed



text \<open>
  Claim C4. For every sequence of scroll samples applied from the initial scroll state
  (hence at every point of such a sequence), at most one of \<open>isScrollingUp\<close> and
  \<open>isScrollingDown\<close> is true and at most one of \<open>isScrollingLeft\<close> and
  \<open>isScrollingRight\<close>; this holds whatever the samples are. Once at least one sample
  has been applied, all samples being numeric, exactly one flag of each pair is true:
  \<open>isScrollingDown\<close> is the negation of \<open>isScrollingUp\<close> and \<open>isScrollingRight\<close> the
  negation of \<open>isScrollingLeft\<close>.
\<close>

theorem direction_flags_exclusive:
  assumes "scrollState c0 = createInitScrollState"
  shows "\<not> (s_isScrollingUp (scrollState (run c0 (map Scroll ws))) \<and>
            s_isScrollingDown (scrollState (run c0 (map Scroll ws)))) \<and>
         \<not> (s_isScrollingLeft (scrollState (run c0 (map Scroll ws))) \<and>
            s_isScrollingRight (scrollState (run c0 (map Scroll ws)))) \<and>
         (ws \<noteq> [] \<and>
          (\<forall>w \<in> set ws. numeric (fst (getNodeScroll w)) \<and> numeric (snd (getNodeScroll w))) \<longrightarrow>
            s_isScrollingDown (scrollState (run c0 (map Scroll ws))) =
              (\<not> s_isScrollingUp (scrollState (run c0 (map Scroll ws)))) \<and>
            s_isScrollingRight (scrollState (run c0 (map Scroll ws))) =
              (\<not> s_isScrollingLeft (scrollState (run c0 (map Scroll ws)))) \<and>
            (s_isScrollingUp (scrollState (run c0 (map Scroll ws))) \<or>
             s_isScrollingDown (scrollState (run c0 (map Scroll ws)))) \<and>
            (s_isScrollingLeft (scrollState (run c0 (map Scroll ws))) \<or>
             s_isScrollingRight (scrollState (run c0 (map Scroll ws)))))"
proof -
  have "s_isScrollingDown (scrollState (run c0 (map Scroll ws))) =
          (\<not> s_isScrollingUp (scrollState (run c0 (map Scroll ws)))) \<and>
        s_isScrollingRight (scrollState (run c0 (map Scroll ws))) =
          (\<not> s_isScrollingLeft (scrollState (run c0 (map Scroll ws))))"
    if "ws \<noteq> []"
      and "\<forall>w \<in> set ws. numeric (fst (getNodeScroll w)) \<and> numeric (snd (getNodeScroll w))"
    using scroll_run_settled [OF assms that(1)] that by simp
  then show ?thesis
    using scroll_run_exclusive [OF assms, of ws] by blast
qed

theorem direction_flags_exclusive_witness:
  "scrollState initCollector = createInitScrollState \<and>
   [sample (Num 0) (Num 50), sample (Num 0) (Num 30)] \<noteq> [] \<and>
   numeric (fst (getNodeScroll (sample (Num 0) (Num 50)))) \<and>
   numeric (snd (getNodeScroll (sample (Num 0) (Num 50)))) \<and>
   numeric (fst (getNodeScroll (sample (Num 0) (Num 30)))) \<and>
   numeric (snd (getNodeScroll (sample (Num 0) (Num 30)))) \<and>
   s_isScrollingDown (scrollState (run initCollector
      (map Scroll [sample (Num 0) (Num 50), sample (Num 0) (Num 30)]))) =
     (\<not> s_isScrollingUp (scrollState (run initCollector
      (map Scroll [sample (Num 0) (Num 50), sample (Num 0) (Num 30)])))) \<and>
   s_isScrollingRight (scrollState (run initCollector
      (map Scroll [sample (Num 0) (Num 50), sample (Num 0) (Num 30)]))) =
     (\<not> s_isScrollingLeft (scrollState (run initCollector
      (map Scroll [sample (Num 0) (Num 50), sample (Num 0) (Num 30)]))))"
proof -
  have i: "scrollState initCollector = createInitScrollState"
    by (simp add: initCollector_def)
  have n: "numeric (fst (getNodeScroll (sample (Num 0) (Num 50))))"
    "numeric (snd (getNodeScroll (sample (Num 0) (Num 50))))"
    "numeric (fst (getNodeScroll (sample (Num 0) (Num 30))))"
    "numeric (snd (getNodeScroll (sample (Num 0) (Num 30))))"
    by (simp_all add: getNodeScroll_def sample_def)
  from direction_flags_exclusive
         [OF i, of "[sample (Num 0) (Num 50), sample (Num 0) (Num 30)]"] i n
  show ?thesis by simp
qed

text \<open>
  Claim C6. In a scroll state reached from the initial one by at least one (numeric)
  sample, a further sample whose raw \<open>x\<close> and \<open>y\<close> are the stored \<open>x\<close> and \<open>y\<close> is
  processed without error and leaves the four direction flags, \<open>xTurn\<close>, \<open>yTurn\<close>,
  \<open>xDTurn\<close> and \<open>yDTurn\<close> as they were.
\<close>

theorem repeated_position_changes_nothing:
  assumes "scrollState c0 = createInitScrollState"
      and "ws \<noteq> []"
      and "\<forall>v \<in> set ws. numeric (fst (getNodeScroll v)) \<and> numeric (snd (getNodeScroll v))"
      and "getNodeScroll w = (s_x (scrollState (run c0 (map Scroll ws))),
                               s_y (scrollState (run c0 (map Scroll ws))))"
  shows "fst (handleScroll w (run c0 (map Scroll ws))) = None \<and>
         s_isScrollingUp (scrollState (snd (handleScroll w (run c0 (map Scroll ws))))) =
           s_isScrollingUp (scrollState (run c0 (map Scroll ws))) \<and>
         s_isScrollingDown (scrollState (snd (handleScroll w (run c0 (map Scroll ws))))) =
           s_isScrollingDown (scrollState (run c0 (map Scroll ws))) \<and>
         s_isScrollingLeft (scrollState (snd (handleScroll w (run c0 (map Scroll ws))))) =
           s_isScrollingLeft (scrollState (run c0 (map Scroll ws))) \<and>
         s_isScrollingRight (scrollState (snd (handleScroll w (run c0 (map Scroll ws))))) =
           s_isScrollingRight (scrollState (run c0 (map Scroll ws))) \<and>
         s_xTurn (scrollState (snd (handleScroll w (run c0 (map Scroll ws))))) =
           s_xTurn (scrollState (run c0 (map Scroll ws))) \<and>
         s_yTurn (scrollState (snd (handleScroll w (run c0 (map Scroll ws))))) =
           s_yTurn (scrollState (run c0 (map Scroll ws))) \<and>
         s_xDTurn (scrollState (snd (handleScroll w (run c0 (map Scroll ws))))) =
           s_xDTurn (scrollState (run c0 (map Scroll ws))) \<and>
         s_yDTurn (scrollState (snd (handleScroll w (run c0 (map Scroll ws))))) =
           s_yDTurn (scrollState (run c0 (map Scroll ws)))"
proof -
  let ?c = "run c0 (map Scroll ws)"
  have n: "numeric (s_x (scrollState ?c))" "numeric (s_y (scrollState ?c))"
    using scroll_run_numeric [OF assms(1)] by simp_all
  have settled:
    "s_isScrollingDown (scrollState ?c) = (\<not> s_isScrollingUp (scrollState ?c))"
    "s_isScrollingRight (scrollState ?c) = (\<not> s_isScrollingLeft (scrollState ?c))"
    "s_xDTurn (scrollState ?c) = num_sub (s_x (scrollState ?c)) (s_xTurn (scrollState ?c))"
    "s_yDTurn (scrollState ?c) = num_sub (s_y (scrollState ?c)) (s_yTurn (scrollState ?c))"
    using scroll_run_settled [OF assms(1,2)] assms(2,3) by simp_all
  have l: "isScrollingLeft (fst (getNodeScroll w)) (scrollState ?c) =
             Inr (s_isScrollingLeft (scrollState ?c))"
    using n(1) by (cases "s_x (scrollState ?c)") (simp_all add: assms(4) isScrollingLeft_def)
  have u: "isScrollingUp (snd (getNodeScroll w)) (scrollState ?c) =
             Inr (s_isScrollingUp (scrollState ?c))"
    using n(2) by (cases "s_y (scrollState ?c)") (simp_all add: assms(4) isScrollingUp_def)
  show ?thesis
    using settled by (simp add: handleScroll_ok [OF l u] assms(4))
qed

theorem repeated_position_changes_nothing_witness:
  "scrollState initCollector = createInitScrollState \<and>
   [sample (Num 0) (Num 50), sample (Num 0) (Num 30)] \<noteq> [] \<and>
   numeric (fst (getNodeScroll (sample (Num 0) (Num 50)))) \<and>
   numeric (snd (getNodeScroll (sample (Num 0) (Num 50)))) \<and>
   numeric (fst (getNodeScroll (sample (Num 0) (Num 30)))) \<and>
   numeric (snd (getNodeScroll (sample (Num 0) (Num 30)))) \<and>
   getNodeScroll (sample (Num 0) (Num 30)) =
     (s_x (scrollState (run initCollector
        (map Scroll [sample (Num 0) (Num 50), sample (Num 0) (Num 30)]))),
      s_y (scrollState (run initCollector
        (map Scroll [sample (Num 0) (Num 50), sample (Num 0) (Num 30)])))) \<and>
   s_isScrollingUp (scrollState (snd (handleScroll (sample (Num 0) (Num 30))
     (run initCollector (map Scroll [sample (Num 0) (Num 50), sample (Num 0) (Num 30)]))))) \<and>
   s_yTurn (scrollState (snd (handleScroll (sample (Num 0) (Num 30))
     (run initCollector (map Scroll [sample (Num 0) (Num 50), sample (Num 0) (Num 30)])))))
     = Num 30 \<and>
   s_yDTurn (scrollState (snd (handleScroll (sample (Num 0) (Num 30))
     (run initCollector (map Scroll [sample (Num 0) (Num 50), sample (Num 0) (Num 30)])))))
     = Num 0"
proof -
  let ?ws = "[sample (Num 0) (Num 50), sample (Num 0) (Num 30)]"
  let ?c = "run initCollector (map Scroll ?ws)"
  have i: "scrollState initCollector = createInitScrollState"
    by (simp add: initCollector_def)
  have ne: "?ws \<noteq> []" by simp
  have n: "numeric (fst (getNodeScroll (sample (Num 0) (Num 50))))"
    "numeric (snd (getNodeScroll (sample (Num 0) (Num 50))))"
    "numeric (fst (getNodeScroll (sample (Num 0) (Num 30))))"
    "numeric (snd (getNodeScroll (sample (Num 0) (Num 30))))"
    by (simp_all add: getNodeScroll_def sample_def)
  have all: "\<forall>v \<in> set ?ws. numeric (fst (getNodeScroll v)) \<and> numeric (snd (getNodeScroll v))"
    using n by simp
  have c: "scrollState ?c =
     \<lparr> s_x = Num 0, s_y = Num 30, s_isScrollingUp = True, s_isScrollingDown = False,
       s_isScrollingLeft = False, s_isScrollingRight = True,
       s_xTurn = Num 0, s_yTurn = Num 30, s_xDTurn = Num 0, s_yDTurn = Num 0 \<rparr>"
    by (simp add: run_def handleScroll_def getNodeScroll_def isScrollingLeft_def
      isScrollingUp_def Let_def sample_def initCollector_def createInitScrollState_def)
  have w: "getNodeScroll (sample (Num 0) (Num 30)) =
             (s_x (scrollState ?c), s_y (scrollState ?c))"
  proof -
    have "getNodeScroll (sample (Num 0) (Num 30)) = (Num 0, Num 30)"
      by (simp add: getNodeScroll_def sample_def)
    then show ?thesis by (simp only: c IScroll.simps)
  qed
  have c': "scrollState (run initCollector
      [Scroll (sample (Num 0) (Num 50)), Scroll (sample (Num 0) (Num 30))]) =
     \<lparr> s_x = Num 0, s_y = Num 30, s_isScrollingUp = True, s_isScrollingDown = False,
       s_isScrollingLeft = False, s_isScrollingRight = True,
       s_xTurn = Num 0, s_yTurn = Num 30, s_xDTurn = Num 0, s_yDTurn = Num 0 \<rparr>"
    using c by simp
  from repeated_position_changes_nothing [OF i ne all w] i n w
  show ?thesis by (simp add: c')
qed

section \<open>Properties of the publication scheduler\<close>

subsection \<open>Shallow equality\<close>

lemma num_eq_eq: "num_eq a b \<Longrightarrow> a = b"
  by (cases a; cases b) auto

lemma shallowEqualScroll_eq: "shallowEqualScroll a b \<Longrightarrow> a = b"
  by (auto simp: shallowEqualScroll_def dest!: num_eq_eq intro!: IScroll.equality)

lemma shallowEqualDimensions_eq: "shallowEqualDimensions a b \<Longrightarrow> a = b"
  by (auto simp: shallowEqualDimensions_def dest!: num_eq_eq intro!: IDimensions.equality)

subsection \<open>The memoized copies\<close>

lemma getPublicScroll_hit:
  assumes "publicScrollMemo c = Some (a, r)" and "shallowEqualScroll s a"
  shows "getPublicScroll s c = (r, c)"
  using assms by (simp add: getPublicScroll_def memoize_call_def)

lemma getPublicScroll_miss:
  assumes "publicScrollMemo c = None \<or>
           (\<exists>a r. publicScrollMemo c = Some (a, r) \<and> \<not> shallowEqualScroll s a)"
  shows "getPublicScroll s c =
           ((allocated c, s),
            c\<lparr>publicScrollMemo := Some (s, (allocated c, s)), allocated := Suc (allocated c)\<rparr>)"
  using assms by (auto simp: getPublicScroll_def memoize_call_def)

lemma getPublicDimensions_hit:
  assumes "publicDimensionsMemo c = Some (a, r)" and "shallowEqualDimensions d a"
  shows "getPublicDimensions d c = (r, c)"
  using assms by (simp add: getPublicDimensions_def memoize_call_def)

lemma getPublicDimensions_miss:
  assumes "publicDimensionsMemo c = None \<or>
           (\<exists>a r. publicDimensionsMemo c = Some (a, r) \<and> \<not> shallowEqualDimensions d a)"
  shows "getPublicDimensions d c =
           ((allocated c, d),
            c\<lparr>publicDimensionsMemo := Some (d, (allocated c, d)),
              allocated := Suc (allocated c)\<rparr>)"
  using assms by (auto simp: getPublicDimensions_def memoize_call_def)

lemma getPublicScroll_cases:
  obtains (hit) a r where "publicScrollMemo c = Some (a, r)" and "shallowEqualScroll s a"
      and "getPublicScroll s c = (r, c)"
  | (miss) "publicScrollMemo c = None \<or>
            (\<exists>a r. publicScrollMemo c = Some (a, r) \<and> \<not> shallowEqualScroll s a)"
      and "getPublicScroll s c =
           ((allocated c, s),
            c\<lparr>publicScrollMemo := Some (s, (allocated c, s)), allocated := Suc (allocated c)\<rparr>)"
proof (cases "\<exists>a r. publicScrollMemo c = Some (a, r) \<and> shallowEqualScroll s a")
  case True
  then obtain a r where h: "publicScrollMemo c = Some (a, r)" "shallowEqualScroll s a"
    by blast
  then show ?thesis using getPublicScroll_hit [OF h] hit by blast
next
  case False
  then have h: "publicScrollMemo c = None \<or>
            (\<exists>a r. publicScrollMemo c = Some (a, r) \<and> \<not> shallowEqualScroll s a)"
    by (cases "publicScrollMemo c") auto
  then show ?thesis using getPublicScroll_miss [OF h] miss by blast
qed

lemma getPublicDimensions_cases:
  obtains (hit) a r where "publicDimensionsMemo c = Some (a, r)"
      and "shallowEqualDimensions d a" and "getPublicDimensions d c = (r, c)"
  | (miss) "publicDimensionsMemo c = None \<or>
            (\<exists>a r. publicDimensionsMemo c = Some (a, r) \<and> \<not> shallowEqualDimensions d a)"
      and "getPublicDimensions d c =
           ((allocated c, d),
            c\<lparr>publicDimensionsMemo := Some (d, (allocated c, d)),
              allocated := Suc (allocated c)\<rparr>)"
proof (cases "\<exists>a r. publicDimensionsMemo c = Some (a, r) \<and> shallowEqualDimensions d a")
  case True
  then obtain a r where h: "publicDimensionsMemo c = Some (a, r)" "shallowEqualDimensions d a"
    by blast
  then show ?thesis using getPublicDimensions_hit [OF h] hit by blast
next
  case False
  then have h: "publicDimensionsMemo c = None \<or>
            (\<exists>a r. publicDimensionsMemo c = Some (a, r) \<and> \<not> shallowEqualDimensions d a)"
    by (cases "publicDimensionsMemo c") auto
  then show ?thesis using getPublicDimensions_miss [OF h] miss by blast
qed

text \<open>What a call returns and leaves behind, whichever way the cache answers.\<close>

lemma getPublicScroll_result:
  assumes "memo_ok (publicScrollMemo c)"
  obtains r n where
    "getPublicScroll s c = (r, c\<lparr>publicScrollMemo := Some (s, r), allocated := n\<rparr>)"
    and "snd r = s"
    and "\<forall>r0. publicScrollMemo c = Some (s, r0) \<and> shallowEqualScroll s s \<longrightarrow> r = r0"
proof (cases s c rule: getPublicScroll_cases)
  case (hit a r)
  have a: "a = s" using shallowEqualScroll_eq [OF hit(2)] by simp
  have upd: "c\<lparr>publicScrollMemo := Some (s, r), allocated := allocated c\<rparr> = c"
    using hit(1) a by simp
  have 1: "getPublicScroll s c =
             (r, c\<lparr>publicScrollMemo := Some (s, r), allocated := allocated c\<rparr>)"
    unfolding upd by (rule hit(3))
  have 2: "snd r = s" using assms hit(1) a by (simp add: memo_ok_def)
  have 3: "\<forall>r0. publicScrollMemo c = Some (s, r0) \<and> shallowEqualScroll s s \<longrightarrow> r = r0"
    using hit(1) by simp
  from 1 2 3 show ?thesis by (rule that)
next
  case miss
  have 3: "\<forall>r0. publicScrollMemo c = Some (s, r0) \<and> shallowEqualScroll s s \<longrightarrow>
             (allocated c, s) = r0"
    using miss(1) by auto
  from miss(2) _ 3 show ?thesis by (rule that) simp
qed

lemma getPublicDimensions_result:
  assumes "memo_ok (publicDimensionsMemo c)"
  obtains r n where
    "getPublicDimensions d c = (r, c\<lparr>publicDimensionsMemo := Some (d, r), allocated := n\<rparr>)"
    and "snd r = d"
    and "\<forall>r0. publicDimensionsMemo c = Some (d, r0) \<and> shallowEqualDimensions d d \<longrightarrow> r = r0"
proof (cases d c rule: getPublicDimensions_cases)
  case (hit a r)
  have a: "a = d" using shallowEqualDimensions_eq [OF hit(2)] by simp
  have upd: "c\<lparr>publicDimensionsMemo := Some (d, r), allocated := allocated c\<rparr> = c"
    using hit(1) a by simp
  have 1: "getPublicDimensions d c =
             (r, c\<lparr>publicDimensionsMemo := Some (d, r), allocated := allocated c\<rparr>)"
    unfolding upd by (rule hit(3))
  have 2: "snd r = d" using assms hit(1) a by (simp add: memo_ok_def)
  have 3: "\<forall>r0. publicDimensionsMemo c = Some (d, r0) \<and> shallowEqualDimensions d d \<longrightarrow> r = r0"
    using hit(1) by simp
  from 1 2 3 show ?thesis by (rule that)
next
  case miss
  have 3: "\<forall>r0. publicDimensionsMemo c = Some (d, r0) \<and> shallowEqualDimensions d d \<longrightarrow>
             (allocated c, d) = r0"
    using miss(1) by auto
  from miss(2) _ 3 show ?thesis by (rule that) simp
qed

lemma getPropsFromState_result:
  assumes "memo_ok (publicScrollMemo c)" and "memo_ok (publicDimensionsMemo c)"
  obtains rs rd n where
    "getPropsFromState c =
       (\<lparr> vp_scroll = rs, vp_dimensions = rd \<rparr>,
        c\<lparr>publicScrollMemo := Some (lastSyncedScrollState c, rs),
          publicDimensionsMemo := Some (lastSyncedDimensionsState c, rd),
          allocated := n\<rparr>)"
    and "snd rs = lastSyncedScrollState c" and "snd rd = lastSyncedDimensionsState c"
    and "\<forall>r0. publicScrollMemo c = Some (lastSyncedScrollState c, r0) \<and>
           shallowEqualScroll (lastSyncedScrollState c) (lastSyncedScrollState c) \<longrightarrow> rs = r0"
    and "\<forall>r0. publicDimensionsMemo c = Some (lastSyncedDimensionsState c, r0) \<and>
           shallowEqualDimensions (lastSyncedDimensionsState c) (lastSyncedDimensionsState c)
           \<longrightarrow> rd = r0"
proof -
  obtain rs n1 where s:
    "getPublicScroll (lastSyncedScrollState c) c =
       (rs, c\<lparr>publicScrollMemo := Some (lastSyncedScrollState c, rs), allocated := n1\<rparr>)"
    "snd rs = lastSyncedScrollState c"
    "\<forall>r0. publicScrollMemo c = Some (lastSyncedScrollState c, r0) \<and>
           shallowEqualScroll (lastSyncedScrollState c) (lastSyncedScrollState c) \<longrightarrow> rs = r0"
    using assms(1) by (rule getPublicScroll_result)
  let ?c1 = "c\<lparr>publicScrollMemo := Some (lastSyncedScrollState c, rs), allocated := n1\<rparr>"
  have "memo_ok (publicDimensionsMemo ?c1)" using assms(2) by simp
  then obtain rd n where d:
    "getPublicDimensions (lastSyncedDimensionsState c) ?c1 =
       (rd, ?c1\<lparr>publicDimensionsMemo := Some (lastSyncedDimensionsState c, rd), allocated := n\<rparr>)"
    "snd rd = lastSyncedDimensionsState c"
    "\<forall>r0. publicDimensionsMemo ?c1 = Some (lastSyncedDimensionsState c, r0) \<and>
           shallowEqualDimensions (lastSyncedDimensionsState c) (lastSyncedDimensionsState c)
           \<longrightarrow> rd = r0"
    by (rule getPublicDimensions_result)
  show ?thesis
  proof (rule that [of rs rd n])
    show "getPropsFromState c =
       (\<lparr> vp_scroll = rs, vp_dimensions = rd \<rparr>,
        c\<lparr>publicScrollMemo := Some (lastSyncedScrollState c, rs),
          publicDimensionsMemo := Some (lastSyncedDimensionsState c, rd),
          allocated := n\<rparr>)"
      by (simp add: getPropsFromState_def Let_def s(1) d(1))
    show "snd rs = lastSyncedScrollState c" by (rule s(2))
    show "snd rd = lastSyncedDimensionsState c" by (rule d(2))
    show "\<forall>r0. publicScrollMemo c = Some (lastSyncedScrollState c, r0) \<and>
           shallowEqualScroll (lastSyncedScrollState c) (lastSyncedScrollState c) \<longrightarrow> rs = r0"
      by (rule s(3))
    show "\<forall>r0. publicDimensionsMemo c = Some (lastSyncedDimensionsState c, r0) \<and>
           shallowEqualDimensions (lastSyncedDimensionsState c) (lastSyncedDimensionsState c)
           \<longrightarrow> rd = r0"
      using d(3) by simp
  qed
qed


subsection \<open>The sync step and the tick\<close>

lemma syncState_quiet:
  assumes "shallowEqualScroll (lastSyncedScrollState c) (scrollState c)"
      and "shallowEqualDimensions (lastSyncedDimensionsState c) (dimensionsState c)"
  shows "syncState c = c"
  using assms by (simp add: syncState_def)

lemma syncState_fires:
  assumes "memo_ok (publicScrollMemo c)" and "memo_ok (publicDimensionsMemo c)"
      and "\<not> shallowEqualScroll (lastSyncedScrollState c) (scrollState c) \<or>
           \<not> shallowEqualDimensions (lastSyncedDimensionsState c) (dimensionsState c)"
      and "ls = (if shallowEqualScroll (lastSyncedScrollState c) (scrollState c)
                 then lastSyncedScrollState c else scrollState c)"
      and "ld = (if shallowEqualDimensions (lastSyncedDimensionsState c) (dimensionsState c)
                 then lastSyncedDimensionsState c else dimensionsState c)"
      and "flags = \<lparr> u_scrollDidUpdate =
                       (\<not> shallowEqualScroll (lastSyncedScrollState c) (scrollState c)),
                     u_dimensionsDidUpdate =
                       (\<not> shallowEqualDimensions (lastSyncedDimensionsState c)
                            (dimensionsState c)) \<rparr>"
  obtains rs rd n where
    "syncState c =
       c\<lparr>lastSyncedScrollState := ls, lastSyncedDimensionsState := ld,
         publicScrollMemo := Some (ls, rs), publicDimensionsMemo := Some (ld, rd),
         allocated := n,
         onUpdate_calls :=
           onUpdate_calls c @ [(\<lparr> vp_scroll = rs, vp_dimensions = rd \<rparr>, flags)],
         updateOnIdle_calls :=
           updateOnIdle_calls c @ [(\<lparr> vp_scroll = rs, vp_dimensions = rd \<rparr>, flags)]\<rparr>"
    and "snd rs = ls" and "snd rd = ld"
    and "\<forall>r0. publicScrollMemo c = Some (ls, r0) \<and> shallowEqualScroll ls ls \<longrightarrow> rs = r0"
    and "\<forall>r0. publicDimensionsMemo c = Some (ld, r0) \<and> shallowEqualDimensions ld ld \<longrightarrow>
           rd = r0"
proof -
  let ?c2 = "c\<lparr>lastSyncedScrollState := ls, lastSyncedDimensionsState := ld\<rparr>"
  have m: "memo_ok (publicScrollMemo ?c2)" "memo_ok (publicDimensionsMemo ?c2)"
    using assms(1,2) by simp_all
  obtain rs rd n where p:
    "getPropsFromState ?c2 =
       (\<lparr> vp_scroll = rs, vp_dimensions = rd \<rparr>,
        ?c2\<lparr>publicScrollMemo := Some (lastSyncedScrollState ?c2, rs),
           publicDimensionsMemo := Some (lastSyncedDimensionsState ?c2, rd),
           allocated := n\<rparr>)"
    "snd rs = lastSyncedScrollState ?c2" "snd rd = lastSyncedDimensionsState ?c2"
    "\<forall>r0. publicScrollMemo ?c2 = Some (lastSyncedScrollState ?c2, r0) \<and>
       shallowEqualScroll (lastSyncedScrollState ?c2) (lastSyncedScrollState ?c2) \<longrightarrow> rs = r0"
    "\<forall>r0. publicDimensionsMemo ?c2 = Some (lastSyncedDimensionsState ?c2, r0) \<and>
       shallowEqualDimensions (lastSyncedDimensionsState ?c2) (lastSyncedDimensionsState ?c2)
       \<longrightarrow> rd = r0"
    using m by (rule getPropsFromState_result)
  have c2: "(if \<not> shallowEqualDimensions (lastSyncedDimensionsState c) (dimensionsState c)
             then (if \<not> shallowEqualScroll (lastSyncedScrollState c) (scrollState c)
                   then c\<lparr>lastSyncedScrollState := scrollState c\<rparr> else c)
                  \<lparr>lastSyncedDimensionsState := dimensionsState c\<rparr>
             else (if \<not> shallowEqualScroll (lastSyncedScrollState c) (scrollState c)
                   then c\<lparr>lastSyncedScrollState := scrollState c\<rparr> else c)) = ?c2"
    by (simp add: assms(4,5))
  have "syncState c =
       (snd (getPropsFromState ?c2))
         \<lparr>onUpdate_calls :=
           onUpdate_calls (snd (getPropsFromState ?c2)) @ [(fst (getPropsFromState ?c2), flags)],
          updateOnIdle_calls :=
           updateOnIdle_calls (snd (getPropsFromState ?c2)) @
             [(fst (getPropsFromState ?c2), flags)]\<rparr>"
    using assms(3) c2 by (auto simp: syncState_def Let_def assms(6))
  then have 1: "syncState c =
       c\<lparr>lastSyncedScrollState := ls, lastSyncedDimensionsState := ld,
         publicScrollMemo := Some (ls, rs), publicDimensionsMemo := Some (ld, rd),
         allocated := n,
         onUpdate_calls :=
           onUpdate_calls c @ [(\<lparr> vp_scroll = rs, vp_dimensions = rd \<rparr>, flags)],
         updateOnIdle_calls :=
           updateOnIdle_calls c @ [(\<lparr> vp_scroll = rs, vp_dimensions = rd \<rparr>, flags)]\<rparr>"
    by (simp add: p(1))
  from 1 p(2-5) show ?thesis
    by (intro that [of rs rd n]) simp_all
qed


lemma tick_quiet:
  assumes "\<not> (componentMightHaveUpdated c \<and>
              (\<not> shallowEqualScroll (lastSyncedScrollState c) (scrollState c) \<or>
               \<not> shallowEqualDimensions (lastSyncedDimensionsState c) (dimensionsState c)))"
  shows "tick c = c\<lparr>componentMightHaveUpdated := False\<rparr>"
proof (cases "componentMightHaveUpdated c")
  case True
  with assms have "syncState c = c" by (simp add: syncState_quiet)
  then show ?thesis by (simp add: tick_def)
next
  case False
  then show ?thesis by (simp add: tick_def)
qed

lemma tick_fires:
  assumes "memo_ok (publicScrollMemo c)" and "memo_ok (publicDimensionsMemo c)"
      and "componentMightHaveUpdated c"
      and "\<not> shallowEqualScroll (lastSyncedScrollState c) (scrollState c) \<or>
           \<not> shallowEqualDimensions (lastSyncedDimensionsState c) (dimensionsState c)"
      and "ls = (if shallowEqualScroll (lastSyncedScrollState c) (scrollState c)
                 then lastSyncedScrollState c else scrollState c)"
      and "ld = (if shallowEqualDimensions (lastSyncedDimensionsState c) (dimensionsState c)
                 then lastSyncedDimensionsState c else dimensionsState c)"
      and "flags = \<lparr> u_scrollDidUpdate =
                       (\<not> shallowEqualScroll (lastSyncedScrollState c) (scrollState c)),
                     u_dimensionsDidUpdate =
                       (\<not> shallowEqualDimensions (lastSyncedDimensionsState c)
                            (dimensionsState c)) \<rparr>"
  obtains rs rd n where
    "tick c =
       c\<lparr>lastSyncedScrollState := ls, lastSyncedDimensionsState := ld,
         componentMightHaveUpdated := False,
         publicScrollMemo := Some (ls, rs), publicDimensionsMemo := Some (ld, rd),
         allocated := n,
         onUpdate_calls :=
           onUpdate_calls c @ [(\<lparr> vp_scroll = rs, vp_dimensions = rd \<rparr>, flags)],
         updateOnIdle_calls :=
           updateOnIdle_calls c @ [(\<lparr> vp_scroll = rs, vp_dimensions = rd \<rparr>, flags)]\<rparr>"
    and "snd rs = ls" and "snd rd = ld"
    and "\<forall>r0. publicScrollMemo c = Some (ls, r0) \<and> shallowEqualScroll ls ls \<longrightarrow> rs = r0"
    and "\<forall>r0. publicDimensionsMemo c = Some (ld, r0) \<and> shallowEqualDimensions ld ld \<longrightarrow>
           rd = r0"
proof -
  obtain rs rd n where s:
    "syncState c =
       c\<lparr>lastSyncedScrollState := ls, lastSyncedDimensionsState := ld,
         publicScrollMemo := Some (ls, rs), publicDimensionsMemo := Some (ld, rd),
         allocated := n,
         onUpdate_calls :=
           onUpdate_calls c @ [(\<lparr> vp_scroll = rs, vp_dimensions = rd \<rparr>, flags)],
         updateOnIdle_calls :=
           updateOnIdle_calls c @ [(\<lparr> vp_scroll = rs, vp_dimensions = rd \<rparr>, flags)]\<rparr>"
    "snd rs = ls" "snd rd = ld"
    "\<forall>r0. publicScrollMemo c = Some (ls, r0) \<and> shallowEqualScroll ls ls \<longrightarrow> rs = r0"
    "\<forall>r0. publicDimensionsMemo c = Some (ld, r0) \<and> shallowEqualDimensions ld ld \<longrightarrow> rd = r0"
    using assms(1,2,4,5,6,7) by (rule syncState_fires)
  have "tick c = (syncState c)\<lparr>componentMightHaveUpdated := False\<rparr>"
    using assms(3) by (simp add: tick_def)
  then have "tick c =
       c\<lparr>lastSyncedScrollState := ls, lastSyncedDimensionsState := ld,
         componentMightHaveUpdated := False,
         publicScrollMemo := Some (ls, rs), publicDimensionsMemo := Some (ld, rd),
         allocated := n,
         onUpdate_calls :=
           onUpdate_calls c @ [(\<lparr> vp_scroll = rs, vp_dimensions = rd \<rparr>, flags)],
         updateOnIdle_calls :=
           updateOnIdle_calls c @ [(\<lparr> vp_scroll = rs, vp_dimensions = rd \<rparr>, flags)]\<rparr>"
    by (simp add: s(1))
  from this s(2-5) show ?thesis by (rule that)
qed

subsection \<open>The invariant\<close>

lemma deliveries_differ_snoc:
  "deliveries_differ (xs @ [b]) =
     (deliveries_differ xs \<and>
      (xs = [] \<or>
       \<not> shallowEqualScroll (snd (vp_scroll (fst (last xs)))) (snd (vp_scroll (fst b))) \<or>
       \<not> shallowEqualDimensions (snd (vp_dimensions (fst (last xs))))
            (snd (vp_dimensions (fst b)))))"
  by (induction xs rule: deliveries_differ.induct) auto

lemma sync_inv_fields:
  assumes "lastSyncedScrollState c' = lastSyncedScrollState c"
      and "lastSyncedDimensionsState c' = lastSyncedDimensionsState c"
      and "publicScrollMemo c' = publicScrollMemo c"
      and "publicDimensionsMemo c' = publicDimensionsMemo c"
      and "onUpdate_calls c' = onUpdate_calls c"
  shows "sync_inv c' = sync_inv c"
  by (simp add: sync_inv_def assms)

lemma handleScroll_sync_fields:
  "lastSyncedScrollState (snd (handleScroll w c)) = lastSyncedScrollState c \<and>
   lastSyncedDimensionsState (snd (handleScroll w c)) = lastSyncedDimensionsState c \<and>
   publicScrollMemo (snd (handleScroll w c)) = publicScrollMemo c \<and>
   publicDimensionsMemo (snd (handleScroll w c)) = publicDimensionsMemo c \<and>
   onUpdate_calls (snd (handleScroll w c)) = onUpdate_calls c"
proof (cases w c rule: handleScroll_cases)
  case (raise_x err)
  then show ?thesis by simp
next
  case (raise_y err l)
  then show ?thesis by simp
next
  case (ok l u)
  then show ?thesis by (simp add: handleScroll_ok [OF ok(1,2)])
qed

lemma handleResize_sync_fields:
  "lastSyncedScrollState (snd (handleResize e c)) = lastSyncedScrollState c \<and>
   lastSyncedDimensionsState (snd (handleResize e c)) = lastSyncedDimensionsState c \<and>
   publicScrollMemo (snd (handleResize e c)) = publicScrollMemo c \<and>
   publicDimensionsMemo (snd (handleResize e c)) = publicDimensionsMemo c \<and>
   onUpdate_calls (snd (handleResize e c)) = onUpdate_calls c"
  by (simp add: handleResize_def split: sum.split)

lemma sync_inv_getPropsFromState:
  assumes "sync_inv c"
  shows "sync_inv (snd (getPropsFromState c))"
proof -
  have m: "memo_ok (publicScrollMemo c)" "memo_ok (publicDimensionsMemo c)"
    using assms by (simp_all add: sync_inv_def)
  obtain rs rd n where p:
    "getPropsFromState c =
       (\<lparr> vp_scroll = rs, vp_dimensions = rd \<rparr>,
        c\<lparr>publicScrollMemo := Some (lastSyncedScrollState c, rs),
          publicDimensionsMemo := Some (lastSyncedDimensionsState c, rd),
          allocated := n\<rparr>)"
    "snd rs = lastSyncedScrollState c" "snd rd = lastSyncedDimensionsState c"
    "\<forall>r0. publicScrollMemo c = Some (lastSyncedScrollState c, r0) \<and>
           shallowEqualScroll (lastSyncedScrollState c) (lastSyncedScrollState c) \<longrightarrow> rs = r0"
    "\<forall>r0. publicDimensionsMemo c = Some (lastSyncedDimensionsState c, r0) \<and>
           shallowEqualDimensions (lastSyncedDimensionsState c) (lastSyncedDimensionsState c)
           \<longrightarrow> rd = r0"
    using m by (rule getPropsFromState_result)
  have rs: "rs = vp_scroll (fst (last (onUpdate_calls c)))"
    if "onUpdate_calls c \<noteq> []"
      and "shallowEqualScroll (lastSyncedScrollState c) (lastSyncedScrollState c)"
  proof -
    have "publicScrollMemo c =
            Some (lastSyncedScrollState c, vp_scroll (fst (last (onUpdate_calls c))))"
      using assms that by (simp add: sync_inv_def)
    with p(4) that(2) show ?thesis by blast
  qed
  have rd: "rd = vp_dimensions (fst (last (onUpdate_calls c)))"
    if "onUpdate_calls c \<noteq> []"
      and "shallowEqualDimensions (lastSyncedDimensionsState c) (lastSyncedDimensionsState c)"
  proof -
    have "publicDimensionsMemo c =
            Some (lastSyncedDimensionsState c, vp_dimensions (fst (last (onUpdate_calls c))))"
      using assms that by (simp add: sync_inv_def)
    with p(5) that(2) show ?thesis by blast
  qed
  have old: "deliveries_differ (onUpdate_calls c)"
    "onUpdate_calls c = [] \<or>
       snd (vp_scroll (fst (last (onUpdate_calls c)))) = lastSyncedScrollState c \<and>
       snd (vp_dimensions (fst (last (onUpdate_calls c)))) = lastSyncedDimensionsState c"
    using assms by (auto simp: sync_inv_def)
  show ?thesis
    unfolding p(1) sync_inv_def memo_ok_def
    using old p(2,3) rs rd by (cases "onUpdate_calls c = []") simp_all
qed

lemma sync_inv_tick:
  assumes "sync_inv c"
  shows "sync_inv (tick c)"
proof (cases "componentMightHaveUpdated c \<and>
              (\<not> shallowEqualScroll (lastSyncedScrollState c) (scrollState c) \<or>
               \<not> shallowEqualDimensions (lastSyncedDimensionsState c) (dimensionsState c))")
  case False
  then have "tick c = c\<lparr>componentMightHaveUpdated := False\<rparr>" by (rule tick_quiet)
  then show ?thesis using assms by (simp add: sync_inv_def)
next
  case True
  define ls where "ls = (if shallowEqualScroll (lastSyncedScrollState c) (scrollState c)
                 then lastSyncedScrollState c else scrollState c)"
  define ld where "ld = (if shallowEqualDimensions (lastSyncedDimensionsState c) (dimensionsState c)
                 then lastSyncedDimensionsState c else dimensionsState c)"
  define flags where "flags = \<lparr> u_scrollDidUpdate =
                       (\<not> shallowEqualScroll (lastSyncedScrollState c) (scrollState c)),
                     u_dimensionsDidUpdate =
                       (\<not> shallowEqualDimensions (lastSyncedDimensionsState c)
                            (dimensionsState c)) \<rparr>"
  have m: "memo_ok (publicScrollMemo c)" "memo_ok (publicDimensionsMemo c)"
    using assms by (simp_all add: sync_inv_def)
  from True have d: "componentMightHaveUpdated c"
    and f: "\<not> shallowEqualScroll (lastSyncedScrollState c) (scrollState c) \<or>
            \<not> shallowEqualDimensions (lastSyncedDimensionsState c) (dimensionsState c)"
    by simp_all
  obtain rs rd n where t:
    "tick c =
       c\<lparr>lastSyncedScrollState := ls, lastSyncedDimensionsState := ld,
         componentMightHaveUpdated := False,
         publicScrollMemo := Some (ls, rs), publicDimensionsMemo := Some (ld, rd),
         allocated := n,
         onUpdate_calls :=
           onUpdate_calls c @ [(\<lparr> vp_scroll = rs, vp_dimensions = rd \<rparr>, flags)],
         updateOnIdle_calls :=
           updateOnIdle_calls c @ [(\<lparr> vp_scroll = rs, vp_dimensions = rd \<rparr>, flags)]\<rparr>"
    "snd rs = ls" "snd rd = ld"
    using m d f ls_def ld_def flags_def by (rule tick_fires)
  have differ: "onUpdate_calls c = [] \<or>
       \<not> shallowEqualScroll (snd (vp_scroll (fst (last (onUpdate_calls c))))) ls \<or>
       \<not> shallowEqualDimensions (snd (vp_dimensions (fst (last (onUpdate_calls c))))) ld"
  proof (cases "onUpdate_calls c = []")
    case True
    then show ?thesis by simp
  next
    case False
    then have "snd (vp_scroll (fst (last (onUpdate_calls c)))) = lastSyncedScrollState c"
      and "snd (vp_dimensions (fst (last (onUpdate_calls c)))) = lastSyncedDimensionsState c"
      using assms by (simp_all add: sync_inv_def)
    then show ?thesis using f by (auto simp: ls_def ld_def)
  qed
  have "deliveries_differ (onUpdate_calls c)"
    using assms by (simp add: sync_inv_def)
  then show ?thesis
    using differ t(2,3)
    by (simp add: t(1) sync_inv_def memo_ok_def deliveries_differ_snoc)
qed

lemma sync_inv_step:
  assumes "sync_inv c"
  shows "sync_inv (step c ev)"
proof (cases ev)
  case (Scroll w)
  then show ?thesis
    using assms sync_inv_fields [of "snd (handleScroll w c)" c] handleScroll_sync_fields [of w c]
    by simp
next
  case (Resize e)
  then show ?thesis
    using assms sync_inv_fields [of "snd (handleResize e c)" c] handleResize_sync_fields [of e c]
    by simp
next
  case Frame
  then show ?thesis using assms by (simp add: sync_inv_tick)
next
  case ReadProps
  then show ?thesis using assms by (simp add: sync_inv_getPropsFromState)
qed

lemma sync_inv_constructor:
  assumes "constructor e = Inr c0"
  shows "sync_inv c0"
  using assms
  by (auto simp: constructor_def sync_inv_def memo_ok_def split: sum.splits)

lemma sync_inv_run:
  assumes "constructor e = Inr c0"
  shows "sync_inv (run c0 es)"
proof (induction es rule: rev_induct)
  case Nil
  show ?case using sync_inv_constructor [OF assms] by (simp add: run_def)
next
  case (snoc ev es)
  then show ?case by (simp add: run_def sync_inv_step)
qed

subsection \<open>Publication\<close>

text \<open>The definitions to unfold when a concrete run is evaluated.\<close>

lemmas run_defs =
  run_def tick_def syncState_def getPropsFromState_def getPublicScroll_def
  getPublicDimensions_def memoize_call_def shallowEqualScroll_def shallowEqualDimensions_def
  handleScroll_def handleResize_def getClientDimensions_def getNodeScroll_def
  isScrollingLeft_def isScrollingUp_def Let_def sample_def browser_def initCollector_def
  createInitScrollState_def createEmptyDimensionState_def

text \<open>
  Claim C5. In every state the collector reaches, a tick calls \<^verbatim>\<open>onUpdate\<close> exactly
  when the dirty flag is set and the raw scroll state or the raw dimension state differs,
  by field-wise shallow comparison, from its last-synced copy; otherwise it makes no call.
  When it calls, the last-synced copy of each side that changed has been replaced by the
  raw state, the snapshot passed holds the fields of the two last-synced copies as they
  then are, and the flags passed are the two comparisons. A tick makes at most one call,
  and no two consecutive calls ever made carry snapshots that are shallow-equal on both
  the scroll side and the dimensions side.
\<close>

theorem immediate_callback_gated:
  assumes "constructor e = Inr c0" and "c = run c0 es"
  shows "(componentMightHaveUpdated c \<and>
          (\<not> shallowEqualScroll (lastSyncedScrollState c) (scrollState c) \<or>
           \<not> shallowEqualDimensions (lastSyncedDimensionsState c) (dimensionsState c)) \<longrightarrow>
            (\<exists>snapshot.
               onUpdate_calls (tick c) =
                 onUpdate_calls c @
                   [(snapshot,
                     \<lparr> u_scrollDidUpdate =
                         (\<not> shallowEqualScroll (lastSyncedScrollState c) (scrollState c)),
                       u_dimensionsDidUpdate =
                         (\<not> shallowEqualDimensions (lastSyncedDimensionsState c)
                              (dimensionsState c)) \<rparr>)] \<and>
               snd (vp_scroll snapshot) = lastSyncedScrollState (tick c) \<and>
               snd (vp_dimensions snapshot) = lastSyncedDimensionsState (tick c)) \<and>
            lastSyncedScrollState (tick c) =
              (if shallowEqualScroll (lastSyncedScrollState c) (scrollState c)
               then lastSyncedScrollState c else scrollState c) \<and>
            lastSyncedDimensionsState (tick c) =
              (if shallowEqualDimensions (lastSyncedDimensionsState c) (dimensionsState c)
               then lastSyncedDimensionsState c else dimensionsState c)) \<and>
         (\<not> (componentMightHaveUpdated c \<and>
             (\<not> shallowEqualScroll (lastSyncedScrollState c) (scrollState c) \<or>
              \<not> shallowEqualDimensions (lastSyncedDimensionsState c) (dimensionsState c))) \<longrightarrow>
            onUpdate_calls (tick c) = onUpdate_calls c) \<and>
         length (onUpdate_calls (tick c)) \<le> Suc (length (onUpdate_calls c)) \<and>
         deliveries_differ (onUpdate_calls (tick c))"
proof -
  have inv: "sync_inv c"
    using sync_inv_run [OF assms(1)] assms(2) by simp
  then have m: "memo_ok (publicScrollMemo c)" "memo_ok (publicDimensionsMemo c)"
    by (simp_all add: sync_inv_def)
  have differ: "deliveries_differ (onUpdate_calls (tick c))"
    using sync_inv_tick [OF inv] by (simp add: sync_inv_def)
  show ?thesis
  proof (cases "componentMightHaveUpdated c \<and>
              (\<not> shallowEqualScroll (lastSyncedScrollState c) (scrollState c) \<or>
               \<not> shallowEqualDimensions (lastSyncedDimensionsState c) (dimensionsState c))")
    case False
    then have "tick c = c\<lparr>componentMightHaveUpdated := False\<rparr>" by (rule tick_quiet)
    then have "onUpdate_calls (tick c) = onUpdate_calls c" by simp
    with False differ show ?thesis by simp
  next
    case True
    then have d: "componentMightHaveUpdated c"
      and f: "\<not> shallowEqualScroll (lastSyncedScrollState c) (scrollState c) \<or>
              \<not> shallowEqualDimensions (lastSyncedDimensionsState c) (dimensionsState c)"
      by simp_all
    obtain rs rd n where t:
      "tick c =
         c\<lparr>lastSyncedScrollState :=
             (if shallowEqualScroll (lastSyncedScrollState c) (scrollState c)
              then lastSyncedScrollState c else scrollState c),
           lastSyncedDimensionsState :=
             (if shallowEqualDimensions (lastSyncedDimensionsState c) (dimensionsState c)
              then lastSyncedDimensionsState c else dimensionsState c),
           componentMightHaveUpdated := False,
           publicScrollMemo :=
             Some ((if shallowEqualScroll (lastSyncedScrollState c) (scrollState c)
                    then lastSyncedScrollState c else scrollState c), rs),
           publicDimensionsMemo :=
             Some ((if shallowEqualDimensions (lastSyncedDimensionsState c) (dimensionsState c)
                    then lastSyncedDimensionsState c else dimensionsState c), rd),
           allocated := n,
           onUpdate_calls :=
             onUpdate_calls c @
               [(\<lparr> vp_scroll = rs, vp_dimensions = rd \<rparr>,
                 \<lparr> u_scrollDidUpdate =
                     (\<not> shallowEqualScroll (lastSyncedScrollState c) (scrollState c)),
                   u_dimensionsDidUpdate =
                     (\<not> shallowEqualDimensions (lastSyncedDimensionsState c)
                          (dimensionsState c)) \<rparr>)],
           updateOnIdle_calls :=
             updateOnIdle_calls c @
               [(\<lparr> vp_scroll = rs, vp_dimensions = rd \<rparr>,
                 \<lparr> u_scrollDidUpdate =
                     (\<not> shallowEqualScroll (lastSyncedScrollState c) (scrollState c)),
                   u_dimensionsDidUpdate =
                     (\<not> shallowEqualDimensions (lastSyncedDimensionsState c)
                          (dimensionsState c)) \<rparr>)]\<rparr>"
      "snd rs = (if shallowEqualScroll (lastSyncedScrollState c) (scrollState c)
                 then lastSyncedScrollState c else scrollState c)"
      "snd rd = (if shallowEqualDimensions (lastSyncedDimensionsState c) (dimensionsState c)
                 then lastSyncedDimensionsState c else dimensionsState c)"
      using m d f refl refl refl by (rule tick_fires)
    have calls: "onUpdate_calls (tick c) =
             onUpdate_calls c @
               [(\<lparr> vp_scroll = rs, vp_dimensions = rd \<rparr>,
                 \<lparr> u_scrollDidUpdate =
                     (\<not> shallowEqualScroll (lastSyncedScrollState c) (scrollState c)),
                   u_dimensionsDidUpdate =
                     (\<not> shallowEqualDimensions (lastSyncedDimensionsState c)
                          (dimensionsState c)) \<rparr>)]"
      and ls: "lastSyncedScrollState (tick c) =
              (if shallowEqualScroll (lastSyncedScrollState c) (scrollState c)
               then lastSyncedScrollState c else scrollState c)"
      and ld: "lastSyncedDimensionsState (tick c) =
              (if shallowEqualDimensions (lastSyncedDimensionsState c) (dimensionsState c)
               then lastSyncedDimensionsState c else dimensionsState c)"
      by (simp_all add: t(1))
    have "\<exists>snapshot.
               onUpdate_calls (tick c) =
                 onUpdate_calls c @
                   [(snapshot,
                     \<lparr> u_scrollDidUpdate =
                         (\<not> shallowEqualScroll (lastSyncedScrollState c) (scrollState c)),
                       u_dimensionsDidUpdate =
                         (\<not> shallowEqualDimensions (lastSyncedDimensionsState c)
                              (dimensionsState c)) \<rparr>)] \<and>
               snd (vp_scroll snapshot) = lastSyncedScrollState (tick c) \<and>
               snd (vp_dimensions snapshot) = lastSyncedDimensionsState (tick c)"
      by (rule exI [of _ "\<lparr> vp_scroll = rs, vp_dimensions = rd \<rparr>"])
         (simp add: calls ls ld t(2,3))
    moreover have "length (onUpdate_calls (tick c)) \<le> Suc (length (onUpdate_calls c))"
      by (simp add: calls)
    ultimately show ?thesis
      using True differ ls ld by blast
  qed
qed


theorem immediate_callback_gated_witness:
  "constructor \<lparr> env_window = None, env_document = NoDocumentGlobal \<rparr> = Inr initCollector \<and>
   componentMightHaveUpdated
     (run initCollector [Scroll (sample (Num 0) (Num 50)), Frame, Resize browser]) \<and>
   \<not> shallowEqualDimensions
       (lastSyncedDimensionsState
          (run initCollector [Scroll (sample (Num 0) (Num 50)), Frame, Resize browser]))
       (dimensionsState
          (run initCollector [Scroll (sample (Num 0) (Num 50)), Frame, Resize browser])) \<and>
   length (onUpdate_calls
     (run initCollector [Scroll (sample (Num 0) (Num 50)), Frame, Resize browser])) = 1 \<and>
   length (onUpdate_calls (tick
     (run initCollector [Scroll (sample (Num 0) (Num 50)), Frame, Resize browser]))) = 2 \<and>
   lastSyncedDimensionsState (tick
     (run initCollector [Scroll (sample (Num 0) (Num 50)), Frame, Resize browser])) =
     dimensionsState
       (run initCollector [Scroll (sample (Num 0) (Num 50)), Frame, Resize browser]) \<and>
   deliveries_differ (onUpdate_calls (tick
     (run initCollector [Scroll (sample (Num 0) (Num 50)), Frame, Resize browser])))"
proof -
  let ?c = "run initCollector [Scroll (sample (Num 0) (Num 50)), Frame, Resize browser]"
  have h1: "constructor \<lparr> env_window = None, env_document = NoDocumentGlobal \<rparr> =
              Inr initCollector"
    by (simp add: constructor_def createInitDimensionsState_def initCollector_def)
  have h2: "componentMightHaveUpdated ?c"
    by (simp add: run_defs)
  have h3: "\<not> shallowEqualDimensions (lastSyncedDimensionsState ?c) (dimensionsState ?c)"
    by (simp add: run_defs)
  have h4: "length (onUpdate_calls ?c) = 1"
    by (simp add: run_defs)
  have fires: "componentMightHaveUpdated ?c \<and>
      (\<not> shallowEqualScroll (lastSyncedScrollState ?c) (scrollState ?c) \<or>
       \<not> shallowEqualDimensions (lastSyncedDimensionsState ?c) (dimensionsState ?c))"
    using h2 h3 by simp
  note gated = immediate_callback_gated
    [OF h1 refl, of "[Scroll (sample (Num 0) (Num 50)), Frame, Resize browser]"]
  from gated fires obtain snapshot flags where
    "onUpdate_calls (tick ?c) = onUpdate_calls ?c @ [(snapshot, flags)]"
    by blast
  then have "length (onUpdate_calls (tick ?c)) = 2"
    using h4 by simp
  moreover from gated fires have "lastSyncedDimensionsState (tick ?c) =
      (if shallowEqualDimensions (lastSyncedDimensionsState ?c) (dimensionsState ?c)
       then lastSyncedDimensionsState ?c else dimensionsState ?c)"
    by blast
  then have "lastSyncedDimensionsState (tick ?c) = dimensionsState ?c"
    using h3 by simp
  moreover from gated have "deliveries_differ (onUpdate_calls (tick ?c))"
    by blast
  ultimately show ?thesis
    using h1 h2 h3 h4 by simp
qed

lemma getPublicScroll_twice:
  "(shallowEqualScroll a2 a1 \<longrightarrow>
      fst (getPublicScroll a2 (snd (getPublicScroll a1 k))) = fst (getPublicScroll a1 k) \<and>
      allocated (snd (getPublicScroll a2 (snd (getPublicScroll a1 k)))) =
        allocated (snd (getPublicScroll a1 k))) \<and>
   (\<not> shallowEqualScroll a2 a1 \<longrightarrow>
      fst (getPublicScroll a2 (snd (getPublicScroll a1 k))) =
        (allocated (snd (getPublicScroll a1 k)), a2) \<and>
      allocated (snd (getPublicScroll a2 (snd (getPublicScroll a1 k)))) =
        Suc (allocated (snd (getPublicScroll a1 k))))"
proof (cases a1 k rule: getPublicScroll_cases)
  case (hit a0 r0)
  have a: "a1 = a0" using hit(2) by (rule shallowEqualScroll_eq)
  show ?thesis
  proof (cases "shallowEqualScroll a2 a1")
    case True
    then have "getPublicScroll a2 k = (r0, k)"
      using hit(1) a by (simp add: getPublicScroll_hit)
    with True hit(3) show ?thesis by simp
  next
    case False
    then have "publicScrollMemo k = None \<or>
               (\<exists>a r. publicScrollMemo k = Some (a, r) \<and> \<not> shallowEqualScroll a2 a)"
      using hit(1) a by simp
    from getPublicScroll_miss [OF this] False hit(3) show ?thesis by simp
  qed
next
  case miss
  let ?k = "k\<lparr>publicScrollMemo := Some (a1, (allocated k, a1)),
              allocated := Suc (allocated k)\<rparr>"
  have memo: "publicScrollMemo ?k = Some (a1, (allocated k, a1))" by simp
  show ?thesis
  proof (cases "shallowEqualScroll a2 a1")
    case True
    from getPublicScroll_hit [OF memo True] True miss(2) show ?thesis by simp
  next
    case False
    then have "publicScrollMemo ?k = None \<or>
               (\<exists>a r. publicScrollMemo ?k = Some (a, r) \<and> \<not> shallowEqualScroll a2 a)"
      by simp
    from getPublicScroll_miss [OF this] False miss(2) show ?thesis by simp
  qed
qed

lemma getPublicDimensions_twice:
  "(shallowEqualDimensions a2 a1 \<longrightarrow>
      fst (getPublicDimensions a2 (snd (getPublicDimensions a1 k))) =
        fst (getPublicDimensions a1 k) \<and>
      allocated (snd (getPublicDimensions a2 (snd (getPublicDimensions a1 k)))) =
        allocated (snd (getPublicDimensions a1 k))) \<and>
   (\<not> shallowEqualDimensions a2 a1 \<longrightarrow>
      fst (getPublicDimensions a2 (snd (getPublicDimensions a1 k))) =
        (allocated (snd (getPublicDimensions a1 k)), a2) \<and>
      allocated (snd (getPublicDimensions a2 (snd (getPublicDimensions a1 k)))) =
        Suc (allocated (snd (getPublicDimensions a1 k))))"
proof (cases a1 k rule: getPublicDimensions_cases)
  case (hit a0 r0)
  have a: "a1 = a0" using hit(2) by (rule shallowEqualDimensions_eq)
  show ?thesis
  proof (cases "shallowEqualDimensions a2 a1")
    case True
    then have "getPublicDimensions a2 k = (r0, k)"
      using hit(1) a by (simp add: getPublicDimensions_hit)
    with True hit(3) show ?thesis by simp
  next
    case False
    then have "publicDimensionsMemo k = None \<or>
               (\<exists>a r. publicDimensionsMemo k = Some (a, r) \<and> \<not> shallowEqualDimensions a2 a)"
      using hit(1) a by simp
    from getPublicDimensions_miss [OF this] False hit(3) show ?thesis by simp
  qed
next
  case miss
  let ?k = "k\<lparr>publicDimensionsMemo := Some (a1, (allocated k, a1)),
              allocated := Suc (allocated k)\<rparr>"
  have memo: "publicDimensionsMemo ?k = Some (a1, (allocated k, a1))" by simp
  show ?thesis
  proof (cases "shallowEqualDimensions a2 a1")
    case True
    from getPublicDimensions_hit [OF memo True] True miss(2) show ?thesis by simp
  next
    case False
    then have "publicDimensionsMemo ?k = None \<or>
               (\<exists>a r. publicDimensionsMemo ?k = Some (a, r) \<and>
                      \<not> shallowEqualDimensions a2 a)"
      by simp
    from getPublicDimensions_miss [OF this] False miss(2) show ?thesis by simp
  qed
qed

text \<open>A delivery after an earlier one passes on the object of a side that did not change.\<close>

lemma tick_keeps_unchanged_side:
  assumes inv: "sync_inv c"
      and d: "componentMightHaveUpdated c"
      and f: "\<not> shallowEqualScroll (lastSyncedScrollState c) (scrollState c) \<or>
              \<not> shallowEqualDimensions (lastSyncedDimensionsState c) (dimensionsState c)"
      and ne: "onUpdate_calls c \<noteq> []"
  shows "(shallowEqualScroll (lastSyncedScrollState c) (scrollState c) \<longrightarrow>
            vp_scroll (fst (last (onUpdate_calls (tick c)))) =
              vp_scroll (fst (last (onUpdate_calls c)))) \<and>
         (shallowEqualDimensions (lastSyncedDimensionsState c) (dimensionsState c) \<longrightarrow>
            vp_dimensions (fst (last (onUpdate_calls (tick c)))) =
              vp_dimensions (fst (last (onUpdate_calls c))))"
proof -
  define ls where "ls = (if shallowEqualScroll (lastSyncedScrollState c) (scrollState c)
                 then lastSyncedScrollState c else scrollState c)"
  define ld where "ld = (if shallowEqualDimensions (lastSyncedDimensionsState c) (dimensionsState c)
                 then lastSyncedDimensionsState c else dimensionsState c)"
  define flags where "flags = \<lparr> u_scrollDidUpdate =
                       (\<not> shallowEqualScroll (lastSyncedScrollState c) (scrollState c)),
                     u_dimensionsDidUpdate =
                       (\<not> shallowEqualDimensions (lastSyncedDimensionsState c)
                            (dimensionsState c)) \<rparr>"
  have m: "memo_ok (publicScrollMemo c)" "memo_ok (publicDimensionsMemo c)"
    using inv by (simp_all add: sync_inv_def)
  obtain rs rd n where t:
    "tick c =
       c\<lparr>lastSyncedScrollState := ls, lastSyncedDimensionsState := ld,
         componentMightHaveUpdated := False,
         publicScrollMemo := Some (ls, rs), publicDimensionsMemo := Some (ld, rd),
         allocated := n,
         onUpdate_calls :=
           onUpdate_calls c @ [(\<lparr> vp_scroll = rs, vp_dimensions = rd \<rparr>, flags)],
         updateOnIdle_calls :=
           updateOnIdle_calls c @ [(\<lparr> vp_scroll = rs, vp_dimensions = rd \<rparr>, flags)]\<rparr>"
    "snd rs = ls" "snd rd = ld"
    "\<forall>r0. publicScrollMemo c = Some (ls, r0) \<and> shallowEqualScroll ls ls \<longrightarrow> rs = r0"
    "\<forall>r0. publicDimensionsMemo c = Some (ld, r0) \<and> shallowEqualDimensions ld ld \<longrightarrow> rd = r0"
    using m d f ls_def ld_def flags_def by (rule tick_fires)
  have new: "fst (last (onUpdate_calls (tick c))) = \<lparr> vp_scroll = rs, vp_dimensions = rd \<rparr>"
    by (simp add: t(1))
  have "rs = vp_scroll (fst (last (onUpdate_calls c)))"
    if eq: "shallowEqualScroll (lastSyncedScrollState c) (scrollState c)"
  proof -
    have ls: "ls = lastSyncedScrollState c" using eq by (simp add: ls_def)
    have "scrollState c = lastSyncedScrollState c"
      using shallowEqualScroll_eq [OF eq] by simp
    with eq have self: "shallowEqualScroll ls ls" by (simp add: ls)
    then have "publicScrollMemo c = Some (ls, vp_scroll (fst (last (onUpdate_calls c))))"
      using inv ne by (simp add: sync_inv_def ls)
    with t(4) self show ?thesis by blast
  qed
  moreover have "rd = vp_dimensions (fst (last (onUpdate_calls c)))"
    if eq: "shallowEqualDimensions (lastSyncedDimensionsState c) (dimensionsState c)"
  proof -
    have ld: "ld = lastSyncedDimensionsState c" using eq by (simp add: ld_def)
    have "dimensionsState c = lastSyncedDimensionsState c"
      using shallowEqualDimensions_eq [OF eq] by simp
    with eq have self: "shallowEqualDimensions ld ld" by (simp add: ld)
    then have "publicDimensionsMemo c =
                 Some (ld, vp_dimensions (fst (last (onUpdate_calls c))))"
      using inv ne by (simp add: sync_inv_def ld)
    with t(5) self show ?thesis by blast
  qed
  ultimately show ?thesis by (simp add: new)
qed


text \<open>
  Claim C8. For two successive calls of \<^verbatim>\<open>getPublicScroll\<close>, in any state of the
  collector: if the second argument is shallow-equal to the first, the second call
  returns the object the first call returned and makes no copy; if not, it returns a
  fresh copy of its argument. The same holds for \<^verbatim>\<open>getPublicDimensions\<close>. Hence, in
  every state the collector reaches, a snapshot published after an earlier one holds,
  for a side that did not change, the very object of the previous snapshot.
\<close>

theorem public_copies_keep_identity:
  assumes "constructor e = Inr c0" and "c = run c0 es"
  shows "(shallowEqualScroll a2 a1 \<longrightarrow>
            fst (getPublicScroll a2 (snd (getPublicScroll a1 k))) = fst (getPublicScroll a1 k) \<and>
            allocated (snd (getPublicScroll a2 (snd (getPublicScroll a1 k)))) =
              allocated (snd (getPublicScroll a1 k))) \<and>
         (\<not> shallowEqualScroll a2 a1 \<longrightarrow>
            fst (getPublicScroll a2 (snd (getPublicScroll a1 k))) =
              (allocated (snd (getPublicScroll a1 k)), a2) \<and>
            allocated (snd (getPublicScroll a2 (snd (getPublicScroll a1 k)))) =
              Suc (allocated (snd (getPublicScroll a1 k)))) \<and>
         (shallowEqualDimensions b2 b1 \<longrightarrow>
            fst (getPublicDimensions b2 (snd (getPublicDimensions b1 k))) =
              fst (getPublicDimensions b1 k) \<and>
            allocated (snd (getPublicDimensions b2 (snd (getPublicDimensions b1 k)))) =
              allocated (snd (getPublicDimensions b1 k))) \<and>
         (\<not> shallowEqualDimensions b2 b1 \<longrightarrow>
            fst (getPublicDimensions b2 (snd (getPublicDimensions b1 k))) =
              (allocated (snd (getPublicDimensions b1 k)), b2) \<and>
            allocated (snd (getPublicDimensions b2 (snd (getPublicDimensions b1 k)))) =
              Suc (allocated (snd (getPublicDimensions b1 k)))) \<and>
         (componentMightHaveUpdated c \<and> onUpdate_calls c \<noteq> [] \<and>
          (\<not> shallowEqualScroll (lastSyncedScrollState c) (scrollState c) \<or>
           \<not> shallowEqualDimensions (lastSyncedDimensionsState c) (dimensionsState c)) \<longrightarrow>
            (shallowEqualScroll (lastSyncedScrollState c) (scrollState c) \<longrightarrow>
               vp_scroll (fst (last (onUpdate_calls (tick c)))) =
                 vp_scroll (fst (last (onUpdate_calls c)))) \<and>
            (shallowEqualDimensions (lastSyncedDimensionsState c) (dimensionsState c) \<longrightarrow>
               vp_dimensions (fst (last (onUpdate_calls (tick c)))) =
                 vp_dimensions (fst (last (onUpdate_calls c)))))"
proof -
  have inv: "sync_inv c"
    using sync_inv_run [OF assms(1)] assms(2) by simp
  show ?thesis
    using getPublicScroll_twice [of a2 a1 k] getPublicDimensions_twice [of b2 b1 k]
      tick_keeps_unchanged_side [OF inv]
    by blast
qed


theorem public_copies_keep_identity_witness:
  "constructor \<lparr> env_window = None, env_document = NoDocumentGlobal \<rparr> = Inr initCollector \<and>
   shallowEqualScroll createInitScrollState createInitScrollState \<and>
   fst (getPublicScroll createInitScrollState
          (snd (getPublicScroll createInitScrollState initCollector))) =
     fst (getPublicScroll createInitScrollState initCollector) \<and>
   componentMightHaveUpdated
     (run initCollector
        [Scroll (sample (Num 0) (Num 50)), Frame, Scroll (sample (Num 0) (Num 30))]) \<and>
   onUpdate_calls
     (run initCollector
        [Scroll (sample (Num 0) (Num 50)), Frame, Scroll (sample (Num 0) (Num 30))]) \<noteq> [] \<and>
   \<not> shallowEqualScroll
       (lastSyncedScrollState (run initCollector
          [Scroll (sample (Num 0) (Num 50)), Frame, Scroll (sample (Num 0) (Num 30))]))
       (scrollState (run initCollector
          [Scroll (sample (Num 0) (Num 50)), Frame, Scroll (sample (Num 0) (Num 30))])) \<and>
   shallowEqualDimensions
       (lastSyncedDimensionsState (run initCollector
          [Scroll (sample (Num 0) (Num 50)), Frame, Scroll (sample (Num 0) (Num 30))]))
       (dimensionsState (run initCollector
          [Scroll (sample (Num 0) (Num 50)), Frame, Scroll (sample (Num 0) (Num 30))])) \<and>
   vp_dimensions (fst (last (onUpdate_calls (tick (run initCollector
      [Scroll (sample (Num 0) (Num 50)), Frame, Scroll (sample (Num 0) (Num 30))]))))) =
     vp_dimensions (fst (last (onUpdate_calls (run initCollector
      [Scroll (sample (Num 0) (Num 50)), Frame, Scroll (sample (Num 0) (Num 30))]))))"
proof -
  let ?c = "run initCollector
      [Scroll (sample (Num 0) (Num 50)), Frame, Scroll (sample (Num 0) (Num 30))]"
  have h1: "constructor \<lparr> env_window = None, env_document = NoDocumentGlobal \<rparr> =
              Inr initCollector"
    by (simp add: constructor_def createInitDimensionsState_def initCollector_def)
  have h2: "shallowEqualScroll createInitScrollState createInitScrollState"
    by (simp add: shallowEqualScroll_def createInitScrollState_def)
  have h3: "componentMightHaveUpdated ?c"
    by (simp add: run_defs)
  have h4: "onUpdate_calls ?c \<noteq> []"
    by (simp add: run_defs)
  have h5: "\<not> shallowEqualScroll (lastSyncedScrollState ?c) (scrollState ?c)"
    by (simp add: run_defs)
  have h6: "shallowEqualDimensions (lastSyncedDimensionsState ?c) (dimensionsState ?c)"
    by (simp add: run_defs)
  note keep = public_copies_keep_identity
    [OF h1 refl, of createInitScrollState createInitScrollState initCollector _ _
       "[Scroll (sample (Num 0) (Num 50)), Frame, Scroll (sample (Num 0) (Num 30))]"]
  from keep h2 have
    "fst (getPublicScroll createInitScrollState
            (snd (getPublicScroll createInitScrollState initCollector))) =
     fst (getPublicScroll createInitScrollState initCollector)"
    by blast
  moreover from keep h3 h4 h5 h6 have
    "vp_dimensions (fst (last (onUpdate_calls (tick ?c)))) =
     vp_dimensions (fst (last (onUpdate_calls ?c)))"
    by blast
  ultimately show ?thesis
    using h1 h2 h3 h4 h5 h6 by simp
qed

end
